theory Spec2Isabelle
  imports Complex_Main "HOL-Library.AList"
begin

section \<open>Python values and errors\<close>

text \<open>
  The module \<^verbatim>\<open>efficient_3dunet.py\<close> builds a residual symmetric U-Net on top of a
  tensor library. The embedding below follows the module class by class. A Python
  exception is a value of type \<open>error\<close>; a function that can raise returns
  \<open>error + 'a\<close>, with \<open>Inl\<close> for the exception. An \<^verbatim>\<open>assert\<close> that fails is
  \<open>AssertionError\<close> (assertions are taken to be enabled, as they are unless the
  interpreter runs with \<^verbatim>\<open>-O\<close>). What the tensor library raises while it computes is
  kept apart, as \<open>Engine e\<close>.
\<close>

datatype engine_error = RuntimeError | ValueError | NotImplementedError

datatype error = AssertionError | IndexError | AttributeError | TypeError
  | Engine engine_error

text \<open>
  \<open>bind m f\<close> is the sequencing of two statements: when the first raises, the second
  does not run. \<open>lift\<close> takes over what the tensor library returned.
\<close>

fun bind :: "'e + 'a \<Rightarrow> ('a \<Rightarrow> 'e + 'b) \<Rightarrow> 'e + 'b" where
  "bind (Inr x) f = f x"
| "bind (Inl e) f = Inl e"

fun lift :: "engine_error + 'a \<Rightarrow> error + 'a" where
  "lift (Inr x) = Inr x"
| "lift (Inl e) = Inl (Engine e)"

text \<open>
  A kernel size, a stride or a padding is an \<^verbatim>\<open>int\<close> or a tuple of \<^verbatim>\<open>int\<close>s.
\<close>

datatype pyval = Scalar int | Tuple "int list"

fun items :: "pyval \<Rightarrow> int list" where
  "items (Tuple xs) = xs"
| "items (Scalar v) = [v]"

text \<open>
  \<^verbatim>\<open>xs[i]\<close> on a Python sequence: a negative index counts from the end, and an index
  out of range raises \<^verbatim>\<open>IndexError\<close>.
\<close>

definition py_index :: "'a list \<Rightarrow> int \<Rightarrow> error + 'a" where
  "py_index xs i =
     (if 0 \<le> i \<and> i < int (length xs) then Inr (xs ! nat i)
      else if i < 0 \<and> - int (length xs) \<le> i then Inr (xs ! nat (int (length xs) + i))
      else Inl IndexError)"

text \<open>\<^verbatim>\<open>range(n)\<close>: empty when \<open>n \<le> 0\<close>.\<close>

definition py_range :: "int \<Rightarrow> int list" where
  "py_range n = map int [0..<nat n]"

section \<open>Module-level constants\<close>

definition nfeatures :: "nat list" where
  "nfeatures = [24, 64, 192, 192, 192]"

definition sizes :: "pyval list" where
  "sizes = replicate (length nfeatures) (Tuple [3, 3, 3])"

definition embed_ks :: pyval where
  "embed_ks = Tuple [1, 5, 5]"

definition embed_nin :: nat where
  "embed_nin = nfeatures ! 0"

definition embed_nout :: nat where
  "embed_nout = embed_nin"

definition init_stride :: pyval where
  "init_stride = Tuple [1, 2, 2]"

text \<open>
  The one module-level name that is assigned after import is \<^verbatim>\<open>MODE\<close>; it is the
  state that the constructors read and \<^verbatim>\<open>RSUNet.__init__\<close> writes. Its value at import
  is \<^verbatim>\<open>'tvm'\<close>.
\<close>

record globals =
  MODE :: string

definition globals0 :: globals where
  "globals0 = \<lparr>MODE = ''tvm''\<rparr>"

section \<open>Shape utilities\<close>

text \<open>
  \<^verbatim>\<open>_ntuple(n)\<close> returns \<^verbatim>\<open>parse\<close>: an iterable is returned as it is, anything else is
  repeated \<open>n\<close> times. \<^verbatim>\<open>_triple = _ntuple(3)\<close>. (The test is
  \<^verbatim>\<open>isinstance(x, collections.Iterable)\<close>, a name that Python has up to version 3.9.)
\<close>

definition ntuple :: "nat \<Rightarrow> pyval \<Rightarrow> pyval" where
  "ntuple n x = (case x of Tuple xs \<Rightarrow> Tuple xs | Scalar v \<Rightarrow> Tuple (replicate n v))"

definition triple :: "pyval \<Rightarrow> pyval" where
  "triple = ntuple 3"

definition pad_size :: "pyval \<Rightarrow> string \<Rightarrow> error + pyval" where
  "pad_size kernel_size mode =
     (if mode \<notin> set [''valid'', ''same'', ''full''] then Inl AssertionError
      else
        let ks = items (triple kernel_size) in
        if mode = ''valid'' then Inr (Tuple [0, 0, 0])
        else if mode = ''same'' then
          (if list_all (\<lambda>x. x mod 2 \<noteq> 0) ks then Inr (Tuple (map (\<lambda>x. x div 2) ks))
           else Inl AssertionError)
        else Inr (Tuple (map (\<lambda>x. x - 1) ks)))"

section \<open>Layers of the tensor library\<close>

text \<open>
  The numeric work is done by a tensor library (\<^verbatim>\<open>torch.nn\<close>, and \<^verbatim>\<open>fast3d\<close> for the
  \<^verbatim>\<open>'tvm'\<close> convolution). A layer object of the library is modelled by the arguments it
  was built with and by how its parameters were last initialised; the numbers drawn by
  the initialiser are not part of the model. \<open>cv_bias = None\<close> is a layer without a bias
  parameter (\<^verbatim>\<open>layer.bias is None\<close>). \<^verbatim>\<open>fast3d.module.Conv3d\<close> is taken to read
  \<^verbatim>\<open>bias=None\<close> as \<^verbatim>\<open>nn.Conv3d\<close> reads \<^verbatim>\<open>bias=False\<close>.
\<close>

datatype backend = TVM | Torch

datatype init = Default | KaimingNormal | Constant int

record conv_layer =
  cv_backend :: backend
  cv_transposed :: bool
  cv_in_channels :: nat
  cv_out_channels :: nat
  cv_kernel_size :: pyval
  cv_stride :: pyval
  cv_padding :: pyval
  cv_output_padding :: pyval
  cv_weight :: init
  cv_bias :: "init option"

definition new_layer ::
  "backend \<Rightarrow> bool \<Rightarrow> nat \<Rightarrow> nat \<Rightarrow> pyval \<Rightarrow> pyval \<Rightarrow> pyval \<Rightarrow> pyval \<Rightarrow> bool \<Rightarrow> conv_layer" where
  "new_layer b tr in_channels out_channels kernel_size stride padding out_pad bias =
     \<lparr>cv_backend = b, cv_transposed = tr, cv_in_channels = in_channels,
      cv_out_channels = out_channels, cv_kernel_size = kernel_size, cv_stride = stride,
      cv_padding = padding, cv_output_padding = out_pad, cv_weight = Default,
      cv_bias = (if bias then Some Default else None)\<rparr>"

text \<open>\<^verbatim>\<open>nn.init.kaiming_normal_(layer.weight)\<close>.\<close>

definition kaiming_normal_weight :: "conv_layer \<Rightarrow> conv_layer" where
  "kaiming_normal_weight l = l\<lparr>cv_weight := KaimingNormal\<rparr>"

text \<open>
  \<^verbatim>\<open>nn.init.constant_(layer.bias, v)\<close> fills the tensor it is given; given \<^verbatim>\<open>None\<close> it
  raises \<^verbatim>\<open>AttributeError\<close> (\<^verbatim>\<open>None\<close> has no \<^verbatim>\<open>fill_\<close>).
\<close>

definition constant_bias :: "conv_layer \<Rightarrow> int \<Rightarrow> error + conv_layer" where
  "constant_bias l v =
     (case cv_bias l of
        None \<Rightarrow> Inl AttributeError
      | Some b \<Rightarrow> Inr (l\<lparr>cv_bias := Some (Constant v)\<rparr>))"

text \<open>
  \<^verbatim>\<open>batchnorm(out_channels, use_bn, momentum, track)\<close>: a \<^verbatim>\<open>BatchNorm3d\<close> layer (number of
  features, momentum, \<^verbatim>\<open>track_running_stats\<close>; \<^verbatim>\<open>eps\<close> is a constant), or the identity
  function.
\<close>

datatype norm = BatchNorm3d nat real bool | Identity

definition batchnorm :: "nat \<Rightarrow> bool \<Rightarrow> real \<Rightarrow> bool \<Rightarrow> norm" where
  "batchnorm out_channels use_bn momentum track =
     (if use_bn then BatchNorm3d out_channels momentum track else Identity)"

text \<open>
  What the library computes is a parameter of the model: an \<open>engine\<close> gives, for a tensor
  type \<open>'t\<close>, the forward function of each layer and the addition of two tensors.
\<close>

record 't engine =
  conv3d :: "conv_layer \<Rightarrow> 't \<Rightarrow> engine_error + 't"
  conv_transpose3d :: "conv_layer \<Rightarrow> 't \<Rightarrow> engine_error + 't"
  batch_norm :: "nat \<Rightarrow> real \<Rightarrow> bool \<Rightarrow> 't \<Rightarrow> engine_error + 't"
  max_pool3d :: "pyval \<Rightarrow> 't \<Rightarrow> engine_error + 't"
  interpolate :: "pyval \<Rightarrow> string \<Rightarrow> 't \<Rightarrow> engine_error + 't"
  add :: "'t \<Rightarrow> 't \<Rightarrow> engine_error + 't"

section \<open>Conv and ConvT\<close>

datatype Conv = Conv conv_layer

datatype ConvT = ConvT conv_layer

definition Conv_init ::
  "nat \<Rightarrow> nat \<Rightarrow> pyval \<Rightarrow> pyval \<Rightarrow> pyval \<Rightarrow> bool \<Rightarrow> globals \<Rightarrow> error + Conv" where
  "Conv_init in_channels out_channels kernel_size stride padding bias g =
     (let conv =
        (if MODE g = ''tvm''
         then new_layer TVM False in_channels out_channels kernel_size stride padding
                (Scalar 0) False
         else new_layer Torch False in_channels out_channels kernel_size stride padding
                (Scalar 0) False);
          conv = kaiming_normal_weight conv
      in if bias then bind (constant_bias conv 0) (\<lambda>conv. Inr (Conv conv))
         else Inr (Conv conv))"

fun Conv_forward :: "'t engine \<Rightarrow> Conv \<Rightarrow> 't \<Rightarrow> error + 't" where
  "Conv_forward E (Conv l) x = lift (conv3d E l x)"

definition ConvT_init ::
  "nat \<Rightarrow> nat \<Rightarrow> pyval \<Rightarrow> pyval \<Rightarrow> pyval \<Rightarrow> pyval \<Rightarrow> bool \<Rightarrow> error + ConvT" where
  "ConvT_init in_channels out_channels kernel_size stride padding out_pad bias =
     (let conv = new_layer Torch True in_channels out_channels kernel_size stride padding
                   out_pad bias;
          conv = kaiming_normal_weight conv
      in if bias then bind (constant_bias conv 0) (\<lambda>conv. Inr (ConvT conv))
         else Inr (ConvT conv))"

fun ConvT_forward :: "'t engine \<Rightarrow> ConvT \<Rightarrow> 't \<Rightarrow> error + 't" where
  "ConvT_forward E (ConvT l) x = lift (conv_transpose3d E l x)"

fun norm_forward :: "'t engine \<Rightarrow> norm \<Rightarrow> 't \<Rightarrow> error + 't" where
  "norm_forward E Identity x = Inr x"
| "norm_forward E (BatchNorm3d num_features momentum track) x =
     lift (batch_norm E num_features momentum track x)"

definition residual_sum :: "'t engine \<Rightarrow> 't \<Rightarrow> 't \<Rightarrow> bool \<Rightarrow> error + 't" where
  "residual_sum E x skip residual = (if residual then lift (add E x skip) else Inr x)"

section \<open>ConvMod\<close>

record 't ConvMod =
  cm_conv1 :: Conv
  cm_conv2 :: Conv
  cm_conv3 :: Conv
  cm_bn1 :: norm
  cm_bn2 :: norm
  cm_bn3 :: norm
  cm_activation :: "'t \<Rightarrow> 't"
  cm_residual :: bool

definition ConvMod_init ::
  "nat \<Rightarrow> nat \<Rightarrow> pyval \<Rightarrow> ('t \<Rightarrow> 't) \<Rightarrow> bool \<Rightarrow> bool \<Rightarrow> real \<Rightarrow> bool \<Rightarrow> globals
     \<Rightarrow> error + 't ConvMod" where
  "ConvMod_init in_channels out_channels kernel_size activation residual use_bn momentum
     track g =
     (let ks = triple kernel_size; st = Tuple [1, 1, 1] in
      bind (pad_size ks ''same'') (\<lambda>pad.
      let bias = \<not> use_bn in
      bind (Conv_init in_channels out_channels ks st pad bias g) (\<lambda>conv1.
      bind (Conv_init out_channels out_channels ks st pad bias g) (\<lambda>conv2.
      bind (Conv_init out_channels out_channels ks st pad bias g) (\<lambda>conv3.
      Inr \<lparr>cm_conv1 = conv1, cm_conv2 = conv2, cm_conv3 = conv3,
           cm_bn1 = batchnorm out_channels use_bn momentum track,
           cm_bn2 = batchnorm out_channels use_bn momentum track,
           cm_bn3 = batchnorm out_channels use_bn momentum track,
           cm_activation = activation, cm_residual = residual\<rparr>)))))"

definition ConvMod_forward :: "'t engine \<Rightarrow> 't ConvMod \<Rightarrow> 't \<Rightarrow> error + 't" where
  "ConvMod_forward E m x =
     bind (Conv_forward E (cm_conv1 m) x) (\<lambda>x.
     bind (norm_forward E (cm_bn1 m) x) (\<lambda>x.
     let x = cm_activation m x; skip = x in
     bind (Conv_forward E (cm_conv2 m) x) (\<lambda>x.
     bind (norm_forward E (cm_bn2 m) x) (\<lambda>x.
     let x = cm_activation m x in
     bind (Conv_forward E (cm_conv3 m) x) (\<lambda>x.
     bind (residual_sum E x skip (cm_residual m)) (\<lambda>x.
     bind (norm_forward E (cm_bn3 m) x) (\<lambda>x.
     Inr (cm_activation m x))))))))"

section \<open>UpsampleMod\<close>

text \<open>
  \<^verbatim>\<open>self.up\<close> is an \<^verbatim>\<open>nn.Upsample\<close> layer (scale factor and interpolation mode) or a
  \<^verbatim>\<open>ConvT\<close>; \<^verbatim>\<open>self.conv\<close> is a \<^verbatim>\<open>Conv\<close>, or the identity function (\<open>None\<close>).
\<close>

datatype up_layer = Upsample pyval string | UpConvT ConvT

record 't UpsampleMod =
  um_up :: up_layer
  um_conv :: "Conv option"
  um_bn :: norm
  um_activation :: "'t \<Rightarrow> 't"

definition UpsampleMod_init ::
  "nat \<Rightarrow> nat \<Rightarrow> pyval \<Rightarrow> string \<Rightarrow> ('t \<Rightarrow> 't) \<Rightarrow> bool \<Rightarrow> real \<Rightarrow> bool \<Rightarrow> globals
     \<Rightarrow> error + 't UpsampleMod" where
  "UpsampleMod_init in_channels out_channels up mode activation use_bn momentum track g =
     (let ks = Tuple [1, 1, 1]; st = Tuple [1, 1, 1]; pad = Tuple [0, 0, 0]; bias = False in
      bind
        (if mode = ''bilinear'' then
           bind (Conv_init in_channels out_channels ks st pad bias g) (\<lambda>conv.
           Inr (Upsample up ''trilinear'', Some conv))
         else if mode = ''nearest'' then
           bind (Conv_init in_channels out_channels ks st pad bias g) (\<lambda>conv.
           Inr (Upsample up ''nearest'', Some conv))
         else if mode = ''transpose'' then
           bind (ConvT_init in_channels out_channels up up (Scalar 0) (Scalar 0) bias)
             (\<lambda>convt. Inr (UpConvT convt, None))
         else Inl AssertionError)
        (\<lambda>(up_l, conv).
           Inr \<lparr>um_up = up_l, um_conv = conv,
                um_bn = batchnorm out_channels use_bn momentum track,
                um_activation = activation\<rparr>))"

fun up_forward :: "'t engine \<Rightarrow> up_layer \<Rightarrow> 't \<Rightarrow> error + 't" where
  "up_forward E (Upsample scale_factor mode) x = lift (interpolate E scale_factor mode x)"
| "up_forward E (UpConvT convt) x = ConvT_forward E convt x"

fun conv_or_id :: "'t engine \<Rightarrow> Conv option \<Rightarrow> 't \<Rightarrow> error + 't" where
  "conv_or_id E None x = Inr x"
| "conv_or_id E (Some conv) x = Conv_forward E conv x"

definition UpsampleMod_forward ::
  "'t engine \<Rightarrow> 't UpsampleMod \<Rightarrow> 't \<Rightarrow> 't \<Rightarrow> error + 't" where
  "UpsampleMod_forward E m x skip =
     bind (up_forward E (um_up m) x) (\<lambda>x.
     bind (conv_or_id E (um_conv m) x) (\<lambda>x.
     bind (lift (add E x skip)) (\<lambda>s.
     bind (norm_forward E (um_bn m) s) (\<lambda>x.
     Inr (um_activation m x)))))"

section \<open>EmbeddingMod, EmbeddingModUP, OutputMod\<close>

record 't EmbeddingMod =
  em_conv :: Conv
  em_activation :: "'t \<Rightarrow> 't"

definition EmbeddingMod_init ::
  "nat \<Rightarrow> nat \<Rightarrow> pyval \<Rightarrow> ('t \<Rightarrow> 't) \<Rightarrow> pyval \<Rightarrow> globals \<Rightarrow> error + 't EmbeddingMod" where
  "EmbeddingMod_init in_channels out_channels kernel_size activation stride g =
     bind (pad_size kernel_size ''same'') (\<lambda>pad.
     bind (Conv_init in_channels out_channels kernel_size stride pad False g) (\<lambda>conv.
     Inr \<lparr>em_conv = conv, em_activation = activation\<rparr>))"

definition EmbeddingMod_forward :: "'t engine \<Rightarrow> 't EmbeddingMod \<Rightarrow> 't \<Rightarrow> error + 't" where
  "EmbeddingMod_forward E m x =
     bind (Conv_forward E (em_conv m) x) (\<lambda>y. Inr (em_activation m y))"

record 't EmbeddingModUP =
  emu_conv :: ConvT
  emu_activation :: "'t \<Rightarrow> 't"

definition EmbeddingModUP_init ::
  "nat \<Rightarrow> nat \<Rightarrow> pyval \<Rightarrow> ('t \<Rightarrow> 't) \<Rightarrow> pyval \<Rightarrow> error + 't EmbeddingModUP" where
  "EmbeddingModUP_init in_channels out_channels kernel_size activation stride =
     bind (pad_size kernel_size ''same'') (\<lambda>pad.
     bind (ConvT_init in_channels out_channels kernel_size stride pad (Tuple [0, 1, 1]) False)
       (\<lambda>convt.
     Inr \<lparr>emu_conv = convt, emu_activation = activation\<rparr>))"

definition EmbeddingModUP_forward ::
  "'t engine \<Rightarrow> 't EmbeddingModUP \<Rightarrow> 't \<Rightarrow> error + 't" where
  "EmbeddingModUP_forward E m x =
     bind (ConvT_forward E (emu_conv m) x) (\<lambda>y. Inr (emu_activation m y))"

datatype OutputMod = OutputMod Conv

definition OutputMod_init :: "nat \<Rightarrow> nat \<Rightarrow> pyval \<Rightarrow> globals \<Rightarrow> error + OutputMod" where
  "OutputMod_init in_channels out_channels kernel_size g =
     bind (pad_size kernel_size ''same'') (\<lambda>padding.
     bind (Conv_init in_channels out_channels kernel_size (Scalar 1) padding False g)
       (\<lambda>conv.
     Inr (OutputMod conv)))"

fun OutputMod_forward :: "'t engine \<Rightarrow> OutputMod \<Rightarrow> 't \<Rightarrow> error + 't" where
  "OutputMod_forward E (OutputMod conv) x = Conv_forward E conv x"

section \<open>RSUNet\<close>

text \<open>
  The numbered stages are registered under the names \<^verbatim>\<open>'convmod{d}'\<close>, \<^verbatim>\<open>'dconvmod{d}'\<close>,
  \<^verbatim>\<open>'maxpool{d}'\<close> and \<^verbatim>\<open>'upsample{d}'\<close>; a name is modelled by its prefix and its
  number. The registry keeps the order of registration, and registering under a name
  that is present replaces the module there.
\<close>

datatype attr = Convmod int | Dconvmod int | Maxpool int | UpsampleN int

datatype 't module = ConvModule "'t ConvMod" | MaxPool3d pyval | UpsampleModule "'t UpsampleMod"

type_synonym 't registry = "(attr \<times> 't module) list"

definition add_module :: "attr \<Rightarrow> 't module \<Rightarrow> 't registry \<Rightarrow> 't registry" where
  "add_module name m mods = AList.update name m mods"

text \<open>The arguments of \<^verbatim>\<open>RSUNet.__init__\<close>.\<close>

record 't rsunet_args =
  a_aff :: nat
  a_depth :: int
  a_residual :: bool
  a_upsample :: string
  a_use_bn :: bool
  a_momentum :: real
  a_track :: bool
  a_activation :: "'t \<Rightarrow> 't"
  a_init_stride :: pyval
  a_nfeatures :: "nat list"
  a_mode :: string

text \<open>The output feature embedding is one of two classes.\<close>

datatype 't embedding = Plain "'t EmbeddingMod" | Upsampling "'t EmbeddingModUP"

record 't RSUNet =
  net_residual :: bool
  net_upsample :: string
  net_use_bn :: bool
  net_momentum :: real
  net_depth :: int
  net_embed_in :: "'t EmbeddingMod"
  net_modules :: "'t registry"
  net_embed_out :: "'t embedding"
  net_output :: OutputMod

definition add_conv_mod ::
  "'t rsunet_args \<Rightarrow> globals \<Rightarrow> int \<Rightarrow> nat \<Rightarrow> nat \<Rightarrow> pyval \<Rightarrow> 't registry
     \<Rightarrow> error + 't registry" where
  "add_conv_mod a g depth in_channels out_channels kernel_size mods =
     bind (ConvMod_init in_channels out_channels kernel_size (a_activation a)
             (a_residual a) (a_use_bn a) (a_momentum a) (a_track a) g) (\<lambda>m.
     Inr (add_module (Convmod depth) (ConvModule m) mods))"

definition add_dconv_mod ::
  "'t rsunet_args \<Rightarrow> globals \<Rightarrow> int \<Rightarrow> nat \<Rightarrow> nat \<Rightarrow> pyval \<Rightarrow> 't registry
     \<Rightarrow> error + 't registry" where
  "add_dconv_mod a g depth in_channels out_channels kernel_size mods =
     bind (ConvMod_init in_channels out_channels kernel_size (a_activation a)
             (a_residual a) (a_use_bn a) (a_momentum a) (a_track a) g) (\<lambda>m.
     Inr (add_module (Dconvmod depth) (ConvModule m) mods))"

definition add_max_pool :: "int \<Rightarrow> nat \<Rightarrow> pyval \<Rightarrow> 't registry \<Rightarrow> 't registry" where
  "add_max_pool depth in_channels down mods =
     add_module (Maxpool depth) (MaxPool3d down) mods"

definition add_upsample_mod ::
  "'t rsunet_args \<Rightarrow> globals \<Rightarrow> int \<Rightarrow> nat \<Rightarrow> nat \<Rightarrow> pyval \<Rightarrow> 't registry
     \<Rightarrow> error + 't registry" where
  "add_upsample_mod a g depth in_channels out_channels up mods =
     bind (UpsampleMod_init in_channels out_channels up (a_upsample a) (a_activation a)
             (a_use_bn a) (a_momentum a) (a_track a) g) (\<lambda>m.
     Inr (add_module (UpsampleN depth) (UpsampleModule m) mods))"

text \<open>
  The contracting loop of the constructor, over the values \<open>d\<close> still to come; it
  carries \<^verbatim>\<open>in_channels\<close> and the registry.
\<close>

fun contracting_init ::
  "'t rsunet_args \<Rightarrow> globals \<Rightarrow> int list \<Rightarrow> nat \<Rightarrow> 't registry
     \<Rightarrow> error + nat \<times> 't registry" where
  "contracting_init a g [] in_channels mods = Inr (in_channels, mods)"
| "contracting_init a g (d # ds) in_channels mods =
     bind (py_index (a_nfeatures a) d) (\<lambda>fs.
     bind (py_index sizes d) (\<lambda>ks.
     bind (add_conv_mod a g d in_channels fs ks mods) (\<lambda>mods.
     contracting_init a g ds fs (add_max_pool (d + 1) fs (Scalar 2) mods))))"

text \<open>The expanding loop of the constructor.\<close>

fun expanding_init ::
  "'t rsunet_args \<Rightarrow> globals \<Rightarrow> int list \<Rightarrow> nat \<Rightarrow> 't registry
     \<Rightarrow> error + nat \<times> 't registry" where
  "expanding_init a g [] in_channels mods = Inr (in_channels, mods)"
| "expanding_init a g (d # ds) in_channels mods =
     bind (py_index (a_nfeatures a) d) (\<lambda>fs.
     bind (py_index sizes d) (\<lambda>ks.
     bind (add_upsample_mod a g d in_channels fs (Scalar 2) mods) (\<lambda>mods.
     bind (add_dconv_mod a g d fs fs ks mods) (\<lambda>mods.
     expanding_init a g ds fs mods))))"

text \<open>
  The body of \<^verbatim>\<open>RSUNet.__init__\<close> after the assignment to \<^verbatim>\<open>MODE\<close>. \<^verbatim>\<open>init_stride == 1\<close>
  compares the argument with the integer 1: it holds of the integer 1 and of no tuple.
\<close>

definition RSUNet_body :: "'t rsunet_args \<Rightarrow> globals \<Rightarrow> error + 't RSUNet" where
  "RSUNet_body a g =
     (let in_channels = 1 in
      if \<not> a_depth a < int (length (a_nfeatures a)) then Inl AssertionError
      else
        bind (EmbeddingMod_init in_channels embed_nin embed_ks (a_activation a)
                (a_init_stride a) g) (\<lambda>embed_in.
        let in_channels = embed_nin in
        bind (contracting_init a g (py_range (a_depth a)) in_channels [])
          (\<lambda>(in_channels, mods).
        bind (py_index (a_nfeatures a) (a_depth a)) (\<lambda>fs.
        bind (py_index sizes (a_depth a)) (\<lambda>ks.
        bind (add_conv_mod a g (a_depth a) in_channels fs ks mods) (\<lambda>mods.
        let in_channels = fs in
        bind (expanding_init a g (rev (py_range (a_depth a))) in_channels mods)
          (\<lambda>(in_channels, mods).
        bind
          (if a_init_stride a = Scalar 1 then
             bind (EmbeddingMod_init in_channels embed_nout embed_ks (a_activation a)
                     (Scalar 1) g) (\<lambda>e. Inr (Plain e))
           else
             bind (EmbeddingModUP_init in_channels embed_nout embed_ks (a_activation a)
                     (a_init_stride a)) (\<lambda>e. Inr (Upsampling e)))
          (\<lambda>embed_out.
        let in_channels = embed_nout in
        bind (OutputMod_init in_channels (a_aff a) (Scalar 1) g) (\<lambda>output.
        Inr \<lparr>net_residual = a_residual a, net_upsample = a_upsample a,
             net_use_bn = a_use_bn a, net_momentum = a_momentum a,
             net_depth = a_depth a, net_embed_in = embed_in, net_modules = mods,
             net_embed_out = embed_out, net_output = output\<rparr>)))))))))"

text \<open>
  \<^verbatim>\<open>RSUNet.__init__\<close>: \<^verbatim>\<open>global MODE; MODE = mode\<close>, then the body. The constructor returns
  the object or raises, and leaves the module's globals as it last wrote them.
\<close>

definition RSUNet_init :: "'t rsunet_args \<Rightarrow> globals \<Rightarrow> (error + 't RSUNet) \<times> globals" where
  "RSUNet_init a g = (let g' = g\<lparr>MODE := a_mode a\<rparr> in (RSUNet_body a g', g'))"

text \<open>
  \<^verbatim>\<open>getattr(self, name)\<close> and the call of what it returns: with one argument a
  \<^verbatim>\<open>ConvMod\<close> or a pooling layer answers, with two an \<^verbatim>\<open>UpsampleMod\<close>.
\<close>

definition getattr :: "'t registry \<Rightarrow> attr \<Rightarrow> error + 't module" where
  "getattr mods name =
     (case map_of mods name of None \<Rightarrow> Inl AttributeError | Some m \<Rightarrow> Inr m)"

fun call1 :: "'t engine \<Rightarrow> 't module \<Rightarrow> 't \<Rightarrow> error + 't" where
  "call1 E (ConvModule m) x = ConvMod_forward E m x"
| "call1 E (MaxPool3d k) x = lift (max_pool3d E k x)"
| "call1 E (UpsampleModule m) x = Inl TypeError"

fun call2 :: "'t engine \<Rightarrow> 't module \<Rightarrow> 't \<Rightarrow> 't \<Rightarrow> error + 't" where
  "call2 E (UpsampleModule m) x skip = UpsampleMod_forward E m x skip"
| "call2 E (ConvModule m) x skip = Inl TypeError"
| "call2 E (MaxPool3d k) x skip = Inl TypeError"

text \<open>The contracting loop of \<^verbatim>\<open>forward\<close>: it carries \<open>x\<close> and the list \<^verbatim>\<open>skip\<close>.\<close>

fun contracting ::
  "'t engine \<Rightarrow> 't registry \<Rightarrow> int list \<Rightarrow> 't \<Rightarrow> 't list \<Rightarrow> error + 't \<times> 't list" where
  "contracting E mods [] x skip = Inr (x, skip)"
| "contracting E mods (d # ds) x skip =
     bind (getattr mods (Convmod d)) (\<lambda>convmod.
     bind (getattr mods (Maxpool (d + 1))) (\<lambda>maxpool.
     bind (call1 E convmod x) (\<lambda>x.
     let skip = skip @ [x] in
     bind (call1 E maxpool x) (\<lambda>x.
     contracting E mods ds x skip))))"

text \<open>The expanding loop of \<^verbatim>\<open>forward\<close>; \<^verbatim>\<open>skip[d]\<close> is read before \<^verbatim>\<open>upsample\<close> is called.\<close>

fun expanding ::
  "'t engine \<Rightarrow> 't registry \<Rightarrow> int list \<Rightarrow> 't \<Rightarrow> 't list \<Rightarrow> error + 't" where
  "expanding E mods [] x skip = Inr x"
| "expanding E mods (d # ds) x skip =
     bind (getattr mods (UpsampleN d)) (\<lambda>upsample.
     bind (getattr mods (Dconvmod d)) (\<lambda>dconvmod.
     bind (py_index skip d) (\<lambda>s.
     bind (call2 E upsample x s) (\<lambda>y.
     bind (call1 E dconvmod y) (\<lambda>x.
     expanding E mods ds x skip)))))"

fun embedding_forward :: "'t engine \<Rightarrow> 't embedding \<Rightarrow> 't \<Rightarrow> error + 't" where
  "embedding_forward E (Plain m) x = EmbeddingMod_forward E m x"
| "embedding_forward E (Upsampling m) x = EmbeddingModUP_forward E m x"

definition RSUNet_forward :: "'t engine \<Rightarrow> 't RSUNet \<Rightarrow> 't \<Rightarrow> error + 't" where
  "RSUNet_forward E net x =
     bind (EmbeddingMod_forward E (net_embed_in net) x) (\<lambda>x.
     bind (contracting E (net_modules net) (py_range (net_depth net)) x [])
       (\<lambda>(x, skip).
     bind (getattr (net_modules net) (Convmod (net_depth net))) (\<lambda>bridge.
     bind (call1 E bridge x) (\<lambda>x.
     bind (expanding E (net_modules net) (rev (py_range (net_depth net))) x skip) (\<lambda>x.
     bind (embedding_forward E (net_embed_out net) x) (\<lambda>x.
     OutputMod_forward E (net_output net) x))))))"

section \<open>The shapes the tensor library computes\<close>

text \<open>
  For the claims about shapes a tensor is its shape \<open>[N, C, D, H, W]\<close>, and each layer
  acts on it by the shape rule the library documents for it (dilation 1, one group):
  \<^item> convolution: \<open>\<lfloor>(i + 2p - k) / s\<rfloor> + 1\<close> on every spatial axis; the input's channels
    must be the layer's, and the padded input must not be smaller than the kernel;
  \<^item> transposed convolution: \<open>(i - 1) s - 2p + k + output_padding\<close>; on the CPU the
    library refuses an output padding that is not smaller than the stride, elsewhere it
    computes the shape all the same, so the check is a switch of the model;
  \<^item> \<^verbatim>\<open>BatchNorm3d\<close>: the shape is kept; the input has five axes, more than one value per
    channel (the library checks this whenever the layer normalises with the statistics
    of the batch: while it trains, and with \<^verbatim>\<open>track=False\<close>, the default, always), and the
    layer's number of channels;
  \<^item> \<^verbatim>\<open>MaxPool3d(k)\<close>: stride \<open>k\<close>, no padding, \<open>\<lfloor>(i - k) / k\<rfloor> + 1\<close>;
  \<^item> \<^verbatim>\<open>Upsample\<close> with an integer scale factor \<open>s\<close>: \<open>i s\<close>, in the modes \<^verbatim>\<open>'nearest'\<close> and
    \<^verbatim>\<open>'trilinear'\<close> that the module uses;
  \<^item> addition broadcasts: axes are aligned from the last, and two lengths go together
    when they are equal or one of them is 1.
  A kernel size, stride or padding given as an integer stands for three equal
  components, and a tuple must have three. Both convolution backends follow the same
  rule. An activation function acts elementwise, so on shapes it is the identity.
\<close>

fun as3 :: "'a list \<Rightarrow> ('a \<times> 'a \<times> 'a) option" where
  "as3 [a, b, c] = Some (a, b, c)"
| "as3 xs = None"

fun as5 :: "'a list \<Rightarrow> ('a \<times> 'a \<times> 'a \<times> 'a \<times> 'a) option" where
  "as5 [n, c, d, h, w] = Some (n, c, d, h, w)"
| "as5 xs = None"

definition conv_out :: "nat \<Rightarrow> int \<Rightarrow> int \<Rightarrow> int \<Rightarrow> engine_error + nat" where
  "conv_out i k s p =
     (if k < 1 \<or> s < 1 \<or> p < 0 \<or> int i + 2 * p < k then Inl RuntimeError
      else Inr (nat ((int i + 2 * p - k) div s + 1)))"

definition convT_out :: "bool \<Rightarrow> nat \<Rightarrow> int \<Rightarrow> int \<Rightarrow> int \<Rightarrow> int \<Rightarrow> engine_error + nat" where
  "convT_out strict i k s p op =
     (if k < 1 \<or> s < 1 \<or> p < 0 \<or> op < 0 \<or> i < 1 \<or> (strict \<and> s \<le> op)
         \<or> (int i - 1) * s - 2 * p + k + op < 1
      then Inl RuntimeError
      else Inr (nat ((int i - 1) * s - 2 * p + k + op)))"

definition pool_out :: "nat \<Rightarrow> int \<Rightarrow> engine_error + nat" where
  "pool_out i k =
     (if k < 1 \<or> int i < k then Inl RuntimeError
      else Inr (nat ((int i - k) div k + 1)))"

definition interp_out :: "nat \<Rightarrow> int \<Rightarrow> engine_error + nat" where
  "interp_out i s = (if s < 1 \<or> i < 1 then Inl RuntimeError else Inr (nat (int i * s)))"

definition conv3d_shape :: "conv_layer \<Rightarrow> nat list \<Rightarrow> engine_error + nat list" where
  "conv3d_shape l x =
     (case (as5 x, as3 (items (triple (cv_kernel_size l))),
            as3 (items (triple (cv_stride l))), as3 (items (triple (cv_padding l)))) of
        (Some (n, c, d, h, w), Some (kd, kh, kw), Some (sd, sh, sw), Some (pd, ph, pw)) \<Rightarrow>
          if c \<noteq> cv_in_channels l then Inl RuntimeError
          else
            bind (conv_out d kd sd pd) (\<lambda>d'.
            bind (conv_out h kh sh ph) (\<lambda>h'.
            bind (conv_out w kw sw pw) (\<lambda>w'.
            Inr [n, cv_out_channels l, d', h', w'])))
      | _ \<Rightarrow> Inl RuntimeError)"

definition conv_transpose3d_shape ::
  "bool \<Rightarrow> conv_layer \<Rightarrow> nat list \<Rightarrow> engine_error + nat list" where
  "conv_transpose3d_shape strict l x =
     (case (as5 x, as3 (items (triple (cv_kernel_size l))),
            as3 (items (triple (cv_stride l))), as3 (items (triple (cv_padding l))),
            as3 (items (triple (cv_output_padding l)))) of
        (Some (n, c, d, h, w), Some (kd, kh, kw), Some (sd, sh, sw), Some (pd, ph, pw),
         Some (od, oh, ow)) \<Rightarrow>
          if c \<noteq> cv_in_channels l then Inl RuntimeError
          else
            bind (convT_out strict d kd sd pd od) (\<lambda>d'.
            bind (convT_out strict h kh sh ph oh) (\<lambda>h'.
            bind (convT_out strict w kw sw pw ow) (\<lambda>w'.
            Inr [n, cv_out_channels l, d', h', w'])))
      | _ \<Rightarrow> Inl RuntimeError)"

definition batch_norm_shape ::
  "nat \<Rightarrow> real \<Rightarrow> bool \<Rightarrow> nat list \<Rightarrow> engine_error + nat list" where
  "batch_norm_shape num_features momentum track x =
     (case as5 x of
        None \<Rightarrow> Inl ValueError
      | Some (n, c, d, h, w) \<Rightarrow>
          if n * d * h * w = 1 then Inl ValueError
          else if c \<noteq> num_features then Inl RuntimeError
          else Inr x)"

definition max_pool3d_shape :: "pyval \<Rightarrow> nat list \<Rightarrow> engine_error + nat list" where
  "max_pool3d_shape k x =
     (case (as5 x, as3 (items (triple k))) of
        (Some (n, c, d, h, w), Some (kd, kh, kw)) \<Rightarrow>
          bind (pool_out d kd) (\<lambda>d'.
          bind (pool_out h kh) (\<lambda>h'.
          bind (pool_out w kw) (\<lambda>w'.
          Inr [n, c, d', h', w'])))
      | _ \<Rightarrow> Inl RuntimeError)"

definition interpolate_shape :: "pyval \<Rightarrow> string \<Rightarrow> nat list \<Rightarrow> engine_error + nat list" where
  "interpolate_shape scale_factor mode x =
     (if mode \<notin> set [''nearest'', ''trilinear''] then Inl NotImplementedError
      else
        case (as5 x, as3 (items (triple scale_factor))) of
          (Some (n, c, d, h, w), Some (fd, fh, fw)) \<Rightarrow>
            bind (interp_out d fd) (\<lambda>d'.
            bind (interp_out h fh) (\<lambda>h'.
            bind (interp_out w fw) (\<lambda>w'.
            Inr [n, c, d', h', w'])))
        | _ \<Rightarrow> Inl ValueError)"

text \<open>Broadcasting, on the two shapes read from their last axis.\<close>

fun broadcast_rev :: "nat list \<Rightarrow> nat list \<Rightarrow> engine_error + nat list" where
  "broadcast_rev [] ys = Inr ys"
| "broadcast_rev (x # xs) [] = Inr (x # xs)"
| "broadcast_rev (x # xs) (y # ys) =
     (if x = y \<or> y = 1 then bind (broadcast_rev xs ys) (\<lambda>zs. Inr (x # zs))
      else if x = 1 then bind (broadcast_rev xs ys) (\<lambda>zs. Inr (y # zs))
      else Inl RuntimeError)"

definition add_shape :: "nat list \<Rightarrow> nat list \<Rightarrow> engine_error + nat list" where
  "add_shape x y = bind (broadcast_rev (rev x) (rev y)) (\<lambda>zs. Inr (rev zs))"

definition shape_engine :: "bool \<Rightarrow> (nat list) engine" where
  "shape_engine strict =
     \<lparr>conv3d = conv3d_shape, conv_transpose3d = conv_transpose3d_shape strict,
      batch_norm = batch_norm_shape, max_pool3d = max_pool3d_shape,
      interpolate = interpolate_shape, add = add_shape\<rparr>"

definition elu_shape :: "nat list \<Rightarrow> nat list" where
  "elu_shape x = x"

section \<open>The specification's reading of the module\<close>

text \<open>
  The six steps the specification gives for a convolution module, written as it
  words them: \<open>h = activation(norm(conv(x)))\<close> is one step.
\<close>

definition act_norm_conv ::
  "'t engine \<Rightarrow> Conv \<Rightarrow> norm \<Rightarrow> ('t \<Rightarrow> 't) \<Rightarrow> 't \<Rightarrow> error + 't" where
  "act_norm_conv E conv bn activation x =
     bind (Conv_forward E conv x) (\<lambda>c.
     bind (norm_forward E bn c) (\<lambda>b.
     Inr (activation b)))"

definition ConvModule_apply :: "'t engine \<Rightarrow> 't ConvMod \<Rightarrow> 't \<Rightarrow> error + 't" where
  "ConvModule_apply E m x =
     bind (act_norm_conv E (cm_conv1 m) (cm_bn1 m) (cm_activation m) x) (\<lambda>h1.
     let skip = h1 in
     bind (act_norm_conv E (cm_conv2 m) (cm_bn2 m) (cm_activation m) h1) (\<lambda>h2.
     bind (Conv_forward E (cm_conv3 m) h2) (\<lambda>h3.
     bind (if cm_residual m then lift (add E h3 skip) else Inr h3) (\<lambda>h4.
     bind (norm_forward E (cm_bn3 m) h4) (\<lambda>n3.
     Inr (cm_activation m n3))))))"

text \<open>
  The specification's skip cache is a stack: the contracting stage \<open>d\<close> pushes its
  tensor with its number, the expanding stage \<open>d\<close> pops the top, and the pairing is
  broken (\<open>None\<close>) when the number popped is not \<open>d\<close>.
\<close>

fun contracting_lifo ::
  "'t engine \<Rightarrow> 't registry \<Rightarrow> int list \<Rightarrow> 't \<Rightarrow> (int \<times> 't) list
     \<Rightarrow> error + 't \<times> (int \<times> 't) list" where
  "contracting_lifo E mods [] x stack = Inr (x, stack)"
| "contracting_lifo E mods (d # ds) x stack =
     bind (getattr mods (Convmod d)) (\<lambda>convmod.
     bind (getattr mods (Maxpool (d + 1))) (\<lambda>maxpool.
     bind (call1 E convmod x) (\<lambda>x.
     bind (call1 E maxpool x) (\<lambda>y.
     contracting_lifo E mods ds y ((d, x) # stack)))))"

fun expanding_lifo ::
  "'t engine \<Rightarrow> 't registry \<Rightarrow> int list \<Rightarrow> 't \<Rightarrow> (int \<times> 't) list
     \<Rightarrow> (error + 't) option" where
  "expanding_lifo E mods [] x stack = Some (Inr x)"
| "expanding_lifo E mods (d # ds) x stack =
     (case getattr mods (UpsampleN d) of
        Inl e \<Rightarrow> Some (Inl e)
      | Inr upsample \<Rightarrow>
     (case getattr mods (Dconvmod d) of
        Inl e \<Rightarrow> Some (Inl e)
      | Inr dconvmod \<Rightarrow>
     (case stack of
        [] \<Rightarrow> Some (Inl IndexError)
      | (d', s) # rest \<Rightarrow>
          if d' \<noteq> d then None
          else
            (case call2 E upsample x s of
               Inl e \<Rightarrow> Some (Inl e)
             | Inr y \<Rightarrow>
            (case call1 E dconvmod y of
               Inl e \<Rightarrow> Some (Inl e)
             | Inr x' \<Rightarrow> expanding_lifo E mods ds x' rest)))))"

definition RSUNet_forward_lifo :: "'t engine \<Rightarrow> 't RSUNet \<Rightarrow> 't \<Rightarrow> (error + 't) option" where
  "RSUNet_forward_lifo E net x =
     (case EmbeddingMod_forward E (net_embed_in net) x of
        Inl e \<Rightarrow> Some (Inl e)
      | Inr x0 \<Rightarrow>
     (case contracting_lifo E (net_modules net) (py_range (net_depth net)) x0 [] of
        Inl e \<Rightarrow> Some (Inl e)
      | Inr (x1, stack) \<Rightarrow>
     (case bind (getattr (net_modules net) (Convmod (net_depth net)))
             (\<lambda>bridge. call1 E bridge x1) of
        Inl e \<Rightarrow> Some (Inl e)
      | Inr x2 \<Rightarrow>
     (case expanding_lifo E (net_modules net) (rev (py_range (net_depth net))) x2 stack of
        None \<Rightarrow> None
      | Some (Inl e) \<Rightarrow> Some (Inl e)
      | Some (Inr x3) \<Rightarrow>
          Some (bind (embedding_forward E (net_embed_out net) x3)
                  (OutputMod_forward E (net_output net)))))))"

text \<open>The stages of a registry, counted by the class of the module.\<close>

fun is_pool :: "'t module \<Rightarrow> bool" where
  "is_pool (MaxPool3d k) = True"
| "is_pool (ConvModule m) = False"
| "is_pool (UpsampleModule m) = False"

fun is_upsample :: "'t module \<Rightarrow> bool" where
  "is_upsample (UpsampleModule m) = True"
| "is_upsample (ConvModule m) = False"
| "is_upsample (MaxPool3d k) = False"

definition pooling_stages :: "'t registry \<Rightarrow> nat" where
  "pooling_stages mods = length (filter is_pool (map snd mods))"

definition upsample_stages :: "'t registry \<Rightarrow> nat" where
  "upsample_stages mods = length (filter is_upsample (map snd mods))"


section \<open>Example configurations\<close>

text \<open>
  The specification's scenario: depth 2, feature schedule \<open>(8, 16, 32)\<close>, three output
  channels, \<^verbatim>\<open>init_stride=(1,1,1)\<close>, every other argument at its default.
\<close>

definition scenario :: "(nat list) rsunet_args" where
  "scenario =
     \<lparr>a_aff = 3, a_depth = 2, a_residual = True, a_upsample = ''bilinear'',
      a_use_bn = True, a_momentum = 0.001, a_track = False, a_activation = elu_shape,
      a_init_stride = Tuple [1, 1, 1], a_nfeatures = [8, 16, 32], a_mode = ''tvm''\<rparr>"

text \<open>The scenario with \<^verbatim>\<open>init_stride=1\<close>, the integer.\<close>

definition unit_stride :: "(nat list) rsunet_args" where
  "unit_stride = scenario\<lparr>a_init_stride := Scalar 1\<rparr>"


text \<open>A schedule of six widths, with the greatest depth its length allows.\<close>

definition long_schedule :: "(nat list) rsunet_args" where
  "long_schedule = scenario\<lparr>a_depth := 5, a_nfeatures := [8, 16, 32, 64, 128, 256]\<rparr>"

section \<open>The registry as the constructor builds it\<close>

text \<open>
  The number of channels at scale \<open>d\<close> of the schedule, and the number of channels that
  enter the contracting stage \<open>d\<close>. \<open>built a g name m\<close> says that \<open>m\<close> is the module that the
  constructor, called with \<open>a\<close>, makes for the name.
\<close>

definition chan :: "'t rsunet_args \<Rightarrow> int \<Rightarrow> nat" where
  "chan a d = (case py_index (a_nfeatures a) d of Inr c \<Rightarrow> c | Inl e \<Rightarrow> 0)"

definition chan_in :: "'t rsunet_args \<Rightarrow> int \<Rightarrow> nat" where
  "chan_in a d = (if d \<le> 0 then embed_nin else chan a (d - 1))"

fun built :: "'t rsunet_args \<Rightarrow> globals \<Rightarrow> attr \<Rightarrow> 't module \<Rightarrow> bool" where
  "built a g (Convmod d) m =
     (\<exists>cm. m = ConvModule cm \<and>
        ConvMod_init (chan_in a d) (chan a d) (Tuple [3, 3, 3]) (a_activation a)
          (a_residual a) (a_use_bn a) (a_momentum a) (a_track a) g = Inr cm)"
| "built a g (Dconvmod d) m =
     (\<exists>cm. m = ConvModule cm \<and>
        ConvMod_init (chan a d) (chan a d) (Tuple [3, 3, 3]) (a_activation a)
          (a_residual a) (a_use_bn a) (a_momentum a) (a_track a) g = Inr cm)"
| "built a g (Maxpool d) m = (m = MaxPool3d (Scalar 2))"
| "built a g (UpsampleN d) m =
     (\<exists>um. m = UpsampleModule um \<and>
        UpsampleMod_init (chan a (d + 1)) (chan a d) (Scalar 2) (a_upsample a)
          (a_activation a) (a_use_bn a) (a_momentum a) (a_track a) g = Inr um)"

definition as_built :: "'t rsunet_args \<Rightarrow> globals \<Rightarrow> 't registry \<Rightarrow> bool" where
  "as_built a g mods = (\<forall>name m. map_of mods name = Some m \<longrightarrow> built a g name m)"

section \<open>The backends of a network\<close>

text \<open>
  \<^verbatim>\<open>Conv.__init__\<close> tests \<^verbatim>\<open>MODE == 'tvm'\<close>; \<open>mode_backend\<close> is the library that the test
  selects. The backends of a module, and of a network, are those of the \<^verbatim>\<open>Conv\<close> blocks
  it holds, in the order of their construction within the module.
\<close>

definition mode_backend :: "string \<Rightarrow> backend" where
  "mode_backend mode = (if mode = ''tvm'' then TVM else Torch)"

fun Conv_backend :: "Conv \<Rightarrow> backend" where
  "Conv_backend (Conv l) = cv_backend l"

definition ConvMod_backends :: "'t ConvMod \<Rightarrow> backend list" where
  "ConvMod_backends m = map Conv_backend [cm_conv1 m, cm_conv2 m, cm_conv3 m]"

definition UpsampleMod_backends :: "'t UpsampleMod \<Rightarrow> backend list" where
  "UpsampleMod_backends m = (case um_conv m of None \<Rightarrow> [] | Some c \<Rightarrow> [Conv_backend c])"

fun module_backends :: "'t module \<Rightarrow> backend list" where
  "module_backends (ConvModule m) = ConvMod_backends m"
| "module_backends (MaxPool3d k) = []"
| "module_backends (UpsampleModule m) = UpsampleMod_backends m"

fun embedding_backends :: "'t embedding \<Rightarrow> backend list" where
  "embedding_backends (Plain e) = [Conv_backend (em_conv e)]"
| "embedding_backends (Upsampling e) = []"

fun OutputMod_backend :: "OutputMod \<Rightarrow> backend" where
  "OutputMod_backend (OutputMod c) = Conv_backend c"

definition RSUNet_backends :: "'t RSUNet \<Rightarrow> backend list" where
  "RSUNet_backends net =
     Conv_backend (em_conv (net_embed_in net))
       # concat (map (\<lambda>p. module_backends (snd p)) (net_modules net))
       @ embedding_backends (net_embed_out net)
       @ [OutputMod_backend (net_output net)]"

section \<open>Properties\<close>

subsection \<open>Sequencing and the globals\<close>

lemma bind_assoc: "bind (bind m f) h = bind m (\<lambda>x. bind (f x) h)"
  by (cases m) simp_all

lemma bind_eq_Inr: "bind m f = Inr y \<longleftrightarrow> (\<exists>x. m = Inr x \<and> f x = Inr y)"
  by (cases m) simp_all

lemma globals_MODE_update: "(g::globals)\<lparr>MODE := m\<rparr> = \<lparr>MODE = m\<rparr>"
  by (cases g) simp

subsection \<open>Shape utilities\<close>

lemma pad_size_same_3: "pad_size (Tuple [3, 3, 3]) ''same'' = Inr (Tuple [1, 1, 1])"
  by (simp add: pad_size_def triple_def ntuple_def)

text \<open>
  C8 (as the code has it): \<^verbatim>\<open>_ntuple(n)\<close> returns a sequence as it is and repeats a scalar
  \<open>n\<close> times. Its result has \<open>n\<close> components exactly when its argument is a scalar or a
  sequence of \<open>n\<close> components: the length of a sequence is kept, not checked. Applying it
  again changes nothing.
\<close>

theorem ntuple_arity:
  "ntuple n (Tuple xs) = Tuple xs
   \<and> ntuple n (Scalar v) = Tuple (replicate n v)
   \<and> (length (items (ntuple n x)) = n)
       = (case x of Scalar u \<Rightarrow> True | Tuple ys \<Rightarrow> length ys = n)
   \<and> ntuple n (ntuple n x) = ntuple n x"
  by (cases x) (simp_all add: ntuple_def)

text \<open>
  C8 (as stated) asks for a failure on a sequence of the wrong length. A pair given to
  \<^verbatim>\<open>_triple\<close> comes back as the same pair, and \<^verbatim>\<open>pad_size\<close> goes on to compute a padding
  of two components from it.
\<close>

theorem ntuple_wrong_length_counterexample:
  "triple (Tuple [3, 3]) = Tuple [3, 3] \<and> length (items (triple (Tuple [3, 3]))) \<noteq> 3
   \<and> pad_size (Tuple [3, 3]) ''same'' = Inr (Tuple [1, 1])"
  by (simp add: triple_def ntuple_def pad_size_def)

subsection \<open>The convolution module\<close>

text \<open>
  C4: \<^verbatim>\<open>ConvMod.forward\<close> computes the six steps of the specification, in their order:
  the tensor added in step 5 is the activated output of the first convolution, and it
  is added before the third normalisation.
\<close>

theorem ConvMod_forward_six_steps: "ConvMod_forward E m x = ConvModule_apply E m x"
  by (simp add: ConvMod_forward_def ConvModule_apply_def act_norm_conv_def residual_sum_def
      bind_assoc Let_def)

subsection \<open>The bias of a convolution block\<close>

lemma no_bn_eval:
  "(case fst (RSUNet_init (scenario\<lparr>a_use_bn := False, a_mode := ''torch''\<rparr>) globals0) of
      Inl e \<Rightarrow> e = AttributeError | Inr net \<Rightarrow> False)"
  by code_simp

text \<open>
  C7: \<^verbatim>\<open>Conv\<close> builds its layer without a bias whatever its \<^verbatim>\<open>bias\<close> argument is, and
  then initialises \<^verbatim>\<open>self.conv.bias\<close> when the argument is true. With the bias option on,
  the block is not built: the constructor raises, and so does the constructor of a
  network without batch normalisation.
\<close>

theorem Conv_bias_AttributeError:
  "Conv_init 1 24 (Tuple [1, 5, 5]) (Scalar 1) (Tuple [0, 2, 2]) True \<lparr>MODE = ''torch''\<rparr>
     = Inl AttributeError
   \<and> fst (RSUNet_init (scenario\<lparr>a_use_bn := False, a_mode := ''torch''\<rparr>) globals0)
     = Inl AttributeError"
  using no_bn_eval
  by (auto simp: Conv_init_def new_layer_def kaiming_normal_weight_def constant_bias_def
      split: sum.splits)

subsection \<open>The output embedding\<close>

lemma scenario_embed_out_eval:
  "(case fst (RSUNet_init scenario globals0) of
      Inr net \<Rightarrow>
        (case net_embed_out net of
           Upsampling e \<Rightarrow>
             emu_conv e = ConvT (kaiming_normal_weight (new_layer Torch True 8 24
               (Tuple [1, 5, 5]) (Tuple [1, 1, 1]) (Tuple [0, 2, 2]) (Tuple [0, 1, 1]) False))
         | Plain e \<Rightarrow> False)
    | Inl e \<Rightarrow> False)"
  by code_simp

text \<open>
  C5: with \<^verbatim>\<open>init_stride=(1,1,1)\<close> the constructor takes the \<^verbatim>\<open>else\<close> branch of
  \<^verbatim>\<open>init_stride == 1\<close>: the output embedding is an \<^verbatim>\<open>EmbeddingModUP\<close>, a transposed
  convolution of stride \<open>(1, 1, 1)\<close> with output padding \<open>(0, 1, 1)\<close>.
\<close>

theorem scenario_selects_EmbeddingModUP:
  "\<exists>net e. fst (RSUNet_init scenario globals0) = Inr net \<and> net_embed_out net = Upsampling e
     \<and> emu_conv e = ConvT (kaiming_normal_weight (new_layer Torch True 8 24
               (Tuple [1, 5, 5]) (Tuple [1, 1, 1]) (Tuple [0, 2, 2]) (Tuple [0, 1, 1]) False))"
  using scenario_embed_out_eval by (auto split: sum.splits embedding.splits)

subsection \<open>Depth and the schedule\<close>

lemma long_schedule_eval:
  "(case fst (RSUNet_init long_schedule globals0) of
      Inl e \<Rightarrow> e = IndexError | Inr net \<Rightarrow> False)"
  by code_simp

subsection \<open>What the constructor registers\<close>

lemma py_index_sizes:
  "py_index sizes d = (if - 5 \<le> d \<and> d < 5 then Inr (Tuple [3, 3, 3]) else Inl IndexError)"
proof -
  have s: "sizes = replicate 5 (Tuple [3, 3, 3])"
    by (simp add: sizes_def nfeatures_def eval_nat_numeral)
  have n: "n < 5 \<Longrightarrow> replicate 5 (Tuple [3, 3, 3]) ! n = Tuple [3, 3, 3]" for n
    by (rule nth_replicate)
  have l: "length (replicate 5 (Tuple [3, 3, 3])) = 5"
    by (rule length_replicate)
  show ?thesis
    unfolding s py_index_def l by (simp add: n)
qed

lemma py_index_chan: "py_index (a_nfeatures a) d = Inr fs \<Longrightarrow> chan a d = fs"
  by (simp add: chan_def)

lemma map_of_add_module: "map_of (add_module k m mods) = (map_of mods)(k \<mapsto> m)"
  by (simp add: add_module_def update_conv')

lemma keys_add_module: "fst ` set (add_module k m mods) = insert k (fst ` set mods)"
  by (simp add: add_module_def dom_update)

lemma as_built_add:
  "as_built a g mods \<Longrightarrow> built a g k m \<Longrightarrow> as_built a g (add_module k m mods)"
  by (simp add: as_built_def map_of_add_module)

lemma as_built_Nil: "as_built a g []"
  by (simp add: as_built_def)

lemma add_conv_mod_Inr:
  "add_conv_mod a g d cin fs ks mods = Inr mods' \<longleftrightarrow>
   (\<exists>cm. ConvMod_init cin fs ks (a_activation a) (a_residual a) (a_use_bn a)
            (a_momentum a) (a_track a) g = Inr cm \<and>
         mods' = add_module (Convmod d) (ConvModule cm) mods)"
  by (auto simp: add_conv_mod_def bind_eq_Inr)

lemma add_dconv_mod_Inr:
  "add_dconv_mod a g d cin fs ks mods = Inr mods' \<longleftrightarrow>
   (\<exists>cm. ConvMod_init cin fs ks (a_activation a) (a_residual a) (a_use_bn a)
            (a_momentum a) (a_track a) g = Inr cm \<and>
         mods' = add_module (Dconvmod d) (ConvModule cm) mods)"
  by (auto simp: add_dconv_mod_def bind_eq_Inr)

lemma add_upsample_mod_Inr:
  "add_upsample_mod a g d cin fs up mods = Inr mods' \<longleftrightarrow>
   (\<exists>um. UpsampleMod_init cin fs up (a_upsample a) (a_activation a) (a_use_bn a)
            (a_momentum a) (a_track a) g = Inr um \<and>
         mods' = add_module (UpsampleN d) (UpsampleModule um) mods)"
  by (auto simp: add_upsample_mod_def bind_eq_Inr)

lemma py_index_sizes_Inr: "py_index sizes d = Inr ks \<Longrightarrow> ks = Tuple [3, 3, 3]"
  by (simp add: py_index_sizes split: if_splits)

lemma chan_in_Suc: "0 \<le> d \<Longrightarrow> chan_in a (d + 1) = chan a d"
  by (simp add: chan_in_def)

text \<open>The contracting loop of the constructor keeps the registry as built.\<close>

lemma contracting_init_step:
  "contracting_init a g (d # ds) c mods = Inr r \<longleftrightarrow>
   (\<exists>fs cm. py_index (a_nfeatures a) d = Inr fs \<and> - 5 \<le> d \<and> d < 5 \<and>
      ConvMod_init c fs (Tuple [3, 3, 3]) (a_activation a) (a_residual a) (a_use_bn a)
        (a_momentum a) (a_track a) g = Inr cm \<and>
      contracting_init a g ds fs
        (add_max_pool (d + 1) fs (Scalar 2) (add_module (Convmod d) (ConvModule cm) mods)) = Inr r)"
  by (auto simp: bind_eq_Inr py_index_sizes add_conv_mod_Inr split: if_splits)

lemma contracting_init_as_built:
  "contracting_init a g (map int [i..<k]) c mods = Inr (c', mods') \<Longrightarrow>
   as_built a g mods \<Longrightarrow> c = chan_in a (int i) \<Longrightarrow>
   as_built a g mods' \<and> (i \<le> k \<longrightarrow> c' = chan_in a (int k)) \<and>
   fst ` set mods' = fst ` set mods \<union> Convmod ` int ` {i..<k} \<union> (\<lambda>d. Maxpool (int d + 1)) ` {i..<k}"
proof (induction "k - i" arbitrary: i c mods)
  case 0
  then show ?case by auto
next
  case (Suc n)
  then have ik: "i < k" and n: "n = k - Suc i" by simp_all
  from ik have l: "map int [i..<k] = int i # map int [Suc i..<k]"
    by (simp add: upt_conv_Cons)
  from Suc.prems(1) obtain fs cm where
    fs: "py_index (a_nfeatures a) (int i) = Inr fs" and
    cm: "ConvMod_init c fs (Tuple [3, 3, 3]) (a_activation a) (a_residual a) (a_use_bn a)
        (a_momentum a) (a_track a) g = Inr cm" and
    rest: "contracting_init a g (map int [Suc i..<k]) fs
        (add_max_pool (int i + 1) fs (Scalar 2) (add_module (Convmod (int i)) (ConvModule cm) mods)) = Inr (c', mods')"
    unfolding l contracting_init_step by blast
  let ?m2 = "add_max_pool (int i + 1) fs (Scalar 2) (add_module (Convmod (int i)) (ConvModule cm) mods)"
  have b: "as_built a g ?m2"
    using Suc.prems(2,3) cm fs
    by (auto simp: add_max_pool_def py_index_chan intro!: as_built_add)
  have c: "fs = chan_in a (int (Suc i))"
    using fs by (simp add: chan_in_def py_index_chan)
  from Suc.hyps(1)[OF n rest b c]
  have ih: "as_built a g mods'" "Suc i \<le> k \<longrightarrow> c' = chan_in a (int k)"
    "fst ` set mods' = fst ` set ?m2 \<union> Convmod ` int ` {Suc i..<k} \<union> (\<lambda>d. Maxpool (int d + 1)) ` {Suc i..<k}"
    by simp_all
  have s: "{i..<k} = insert i {Suc i..<k}" using ik by auto
  show ?case using ih ik
    by (simp add: s add_max_pool_def keys_add_module)
qed


lemma expanding_init_step:
  "expanding_init a g (d # ds) c mods = Inr r \<longleftrightarrow>
   (\<exists>fs um cm. py_index (a_nfeatures a) d = Inr fs \<and> - 5 \<le> d \<and> d < 5 \<and>
      UpsampleMod_init c fs (Scalar 2) (a_upsample a) (a_activation a) (a_use_bn a)
        (a_momentum a) (a_track a) g = Inr um \<and>
      ConvMod_init fs fs (Tuple [3, 3, 3]) (a_activation a) (a_residual a) (a_use_bn a)
        (a_momentum a) (a_track a) g = Inr cm \<and>
      expanding_init a g ds fs
        (add_module (Dconvmod d) (ConvModule cm)
           (add_module (UpsampleN d) (UpsampleModule um) mods)) = Inr r)"
  by (auto simp: bind_eq_Inr py_index_sizes add_dconv_mod_Inr add_upsample_mod_Inr
      split: if_splits)

lemma expanding_init_as_built:
  "expanding_init a g (rev (map int [0..<j])) c mods = Inr (c', mods') \<Longrightarrow>
   as_built a g mods \<Longrightarrow> (0 < j \<longrightarrow> c = chan a (int j)) \<Longrightarrow>
   as_built a g mods' \<and> c' = (if j = 0 then c else chan a 0) \<and>
   fst ` set mods' = fst ` set mods \<union> UpsampleN ` int ` {0..<j} \<union> Dconvmod ` int ` {0..<j}"
proof (induction j arbitrary: c mods)
  case 0
  then show ?case by auto
next
  case (Suc j)
  from Suc.prems(1) obtain fs um cm where
    fs: "py_index (a_nfeatures a) (int j) = Inr fs" and
    um: "UpsampleMod_init c fs (Scalar 2) (a_upsample a) (a_activation a) (a_use_bn a)
        (a_momentum a) (a_track a) g = Inr um" and
    cm: "ConvMod_init fs fs (Tuple [3, 3, 3]) (a_activation a) (a_residual a) (a_use_bn a)
        (a_momentum a) (a_track a) g = Inr cm" and
    rest: "expanding_init a g (rev (map int [0..<j])) fs
        (add_module (Dconvmod (int j)) (ConvModule cm)
           (add_module (UpsampleN (int j)) (UpsampleModule um) mods)) = Inr (c', mods')"
    using expanding_init_step[of a g "int j" "rev (map int [0..<j])" c mods "(c', mods')"]
    by auto
  let ?m2 = "add_module (Dconvmod (int j)) (ConvModule cm)
           (add_module (UpsampleN (int j)) (UpsampleModule um) mods)"
  have fsj: "fs = chan a (int j)" using fs by (simp add: py_index_chan)
  have cj: "c = chan a (int j + 1)" using Suc.prems(3) by (simp add: add.commute)
  have b: "as_built a g ?m2"
    using Suc.prems(2) um cm by (auto simp: fsj cj intro!: as_built_add)
  have ih: "as_built a g mods'" "c' = (if j = 0 then fs else chan a 0)"
    "fst ` set mods' = fst ` set ?m2 \<union> UpsampleN ` int ` {0..<j} \<union> Dconvmod ` int ` {0..<j}"
    using Suc.IH[OF rest b] fsj by simp_all
  have s: "{0..<Suc j} = insert j {0..<j}" by auto
  show ?case using ih fsj
    by (auto simp: s keys_add_module)
qed

text \<open>Registering under a name that is not there appends.\<close>

lemma update_fresh: "k \<notin> fst ` set al \<Longrightarrow> AList.update k v al = al @ [(k, v)]"
  by (induction al) auto

lemma stages_add_module:
  "k \<notin> fst ` set mods \<Longrightarrow>
   pooling_stages (add_module k m mods) = pooling_stages mods + (if is_pool m then 1 else 0)
   \<and> upsample_stages (add_module k m mods)
       = upsample_stages mods + (if is_upsample m then 1 else 0)"
  by (simp add: add_module_def update_fresh pooling_stages_def upsample_stages_def)

lemma contracting_init_stages:
  "contracting_init a g (map int [i..<k]) c mods = Inr (c', mods') \<Longrightarrow>
   (\<forall>d\<ge>i. Convmod (int d) \<notin> fst ` set mods \<and> Maxpool (int d + 1) \<notin> fst ` set mods) \<Longrightarrow>
   pooling_stages mods' = pooling_stages mods + (k - i)
   \<and> upsample_stages mods' = upsample_stages mods"
proof (induction "k - i" arbitrary: i c mods)
  case 0
  then show ?case by auto
next
  case (Suc n)
  then have ik: "i < k" and n: "n = k - Suc i" by simp_all
  from ik have l: "map int [i..<k] = int i # map int [Suc i..<k]"
    by (simp add: upt_conv_Cons)
  from Suc.prems(1) obtain fs cm where
    rest: "contracting_init a g (map int [Suc i..<k]) fs
        (add_max_pool (int i + 1) fs (Scalar 2)
           (add_module (Convmod (int i)) (ConvModule cm) mods)) = Inr (c', mods')"
    unfolding l contracting_init_step by blast
  let ?m1 = "add_module (Convmod (int i)) (ConvModule cm) mods"
  let ?m2 = "add_max_pool (int i + 1) fs (Scalar 2) ?m1"
  have f1: "Convmod (int i) \<notin> fst ` set mods" "Maxpool (int i + 1) \<notin> fst ` set ?m1"
    using Suc.prems(2) by (auto simp: keys_add_module)
  have st: "pooling_stages ?m2 = pooling_stages mods + 1"
    "upsample_stages ?m2 = upsample_stages mods"
    using f1 by (simp_all add: add_max_pool_def stages_add_module)
  have fr: "\<forall>d\<ge>Suc i. Convmod (int d) \<notin> fst ` set ?m2 \<and> Maxpool (int d + 1) \<notin> fst ` set ?m2"
    using Suc.prems(2) by (auto simp: add_max_pool_def keys_add_module)
  from Suc.hyps(1)[OF n rest fr] st ik show ?case by simp
qed

lemma expanding_init_stages:
  "expanding_init a g (rev (map int [0..<j])) c mods = Inr (c', mods') \<Longrightarrow>
   (\<forall>d<j. UpsampleN (int d) \<notin> fst ` set mods \<and> Dconvmod (int d) \<notin> fst ` set mods) \<Longrightarrow>
   pooling_stages mods' = pooling_stages mods
   \<and> upsample_stages mods' = upsample_stages mods + j"
proof (induction j arbitrary: c mods)
  case 0
  then show ?case by auto
next
  case (Suc j)
  from Suc.prems(1) obtain fs um cm where
    rest: "expanding_init a g (rev (map int [0..<j])) fs
        (add_module (Dconvmod (int j)) (ConvModule cm)
           (add_module (UpsampleN (int j)) (UpsampleModule um) mods)) = Inr (c', mods')"
    using expanding_init_step[of a g "int j" "rev (map int [0..<j])" c mods "(c', mods')"]
    by auto
  let ?m1 = "add_module (UpsampleN (int j)) (UpsampleModule um) mods"
  let ?m2 = "add_module (Dconvmod (int j)) (ConvModule cm) ?m1"
  have f1: "UpsampleN (int j) \<notin> fst ` set mods" "Dconvmod (int j) \<notin> fst ` set ?m1"
    using Suc.prems(2) by (auto simp: keys_add_module)
  have st: "pooling_stages ?m2 = pooling_stages mods"
    "upsample_stages ?m2 = upsample_stages mods + 1"
    using f1 by (simp_all add: stages_add_module)
  have fr: "\<forall>d<j. UpsampleN (int d) \<notin> fst ` set ?m2 \<and> Dconvmod (int d) \<notin> fst ` set ?m2"
    using Suc.prems(2) by (auto simp: keys_add_module)
  from Suc.IH[OF rest fr] st show ?case by simp
qed

lemma RSUNet_body_Inr:
  assumes "RSUNet_body a g = Inr net"
  defines "k \<equiv> nat (a_depth a)"
  shows "a_depth a < int (length (a_nfeatures a))"
    and "- 5 \<le> a_depth a \<and> a_depth a < 5"
    and "net_depth net = a_depth a"
    and "EmbeddingMod_init 1 embed_nin embed_ks (a_activation a) (a_init_stride a) g
           = Inr (net_embed_in net)"
    and "as_built a g (net_modules net)"
    and "fst ` set (net_modules net) =
           Convmod ` int ` {0..<k} \<union> (\<lambda>d. Maxpool (int d + 1)) ` {0..<k}
           \<union> {Convmod (a_depth a)} \<union> UpsampleN ` int ` {0..<k} \<union> Dconvmod ` int ` {0..<k}"
    and "pooling_stages (net_modules net) = k"
    and "upsample_stages (net_modules net) = k"
    and "if a_init_stride a = Scalar 1
         then \<exists>e. net_embed_out net = Plain e \<and>
                EmbeddingMod_init (if k = 0 then chan a (a_depth a) else chan a 0) embed_nout
                  embed_ks (a_activation a) (Scalar 1) g = Inr e
         else \<exists>e. net_embed_out net = Upsampling e \<and>
                EmbeddingModUP_init (if k = 0 then chan a (a_depth a) else chan a 0) embed_nout
                  embed_ks (a_activation a) (a_init_stride a) = Inr e"
    and "OutputMod_init embed_nout (a_aff a) (Scalar 1) g = Inr (net_output net)"
proof -
  from assms(1) show d: "a_depth a < int (length (a_nfeatures a))"
    by (simp add: RSUNet_body_def split: if_splits)
  from assms(1) d obtain embed_in c1 m1 fs ks m2 c3 m3 embed_out outp where
    ei: "EmbeddingMod_init 1 embed_nin embed_ks (a_activation a) (a_init_stride a) g
           = Inr embed_in" and
    ct: "contracting_init a g (map int [0..<k]) embed_nin [] = Inr (c1, m1)" and
    fs: "py_index (a_nfeatures a) (a_depth a) = Inr fs" and
    ks: "py_index sizes (a_depth a) = Inr ks" and
    br: "add_conv_mod a g (a_depth a) c1 fs ks m1 = Inr m2" and
    ex: "expanding_init a g (rev (map int [0..<k])) fs m2 = Inr (c3, m3)" and
    eo: "(if a_init_stride a = Scalar 1 then
             bind (EmbeddingMod_init c3 embed_nout embed_ks (a_activation a)
                     (Scalar 1) g) (\<lambda>e. Inr (Plain e))
           else
             bind (EmbeddingModUP_init c3 embed_nout embed_ks (a_activation a)
                     (a_init_stride a)) (\<lambda>e. Inr (Upsampling e))) = Inr embed_out" and
    ou: "OutputMod_init embed_nout (a_aff a) (Scalar 1) g = Inr outp" and
    net: "net = \<lparr>net_residual = a_residual a, net_upsample = a_upsample a,
             net_use_bn = a_use_bn a, net_momentum = a_momentum a,
             net_depth = a_depth a, net_embed_in = embed_in, net_modules = m3,
             net_embed_out = embed_out, net_output = outp\<rparr>"
    by (auto simp: RSUNet_body_def bind_eq_Inr py_range_def k_def)
  from ks show "- 5 \<le> a_depth a \<and> a_depth a < 5"
    by (simp add: py_index_sizes split: if_splits)
  show "net_depth net = a_depth a" by (simp add: net)
  show "EmbeddingMod_init 1 embed_nin embed_ks (a_activation a) (a_init_stride a) g
           = Inr (net_embed_in net)" using ei by (simp add: net)
  show "OutputMod_init embed_nout (a_aff a) (Scalar 1) g = Inr (net_output net)"
    using ou by (simp add: net)
  have c0: "embed_nin = chan_in a (int 0)" by (simp add: chan_in_def)
  from contracting_init_as_built[OF ct as_built_Nil c0]
  have b1: "as_built a g m1" and c1: "c1 = chan_in a (int k)"
    and k1: "fst ` set m1 = Convmod ` int ` {0..<k} \<union> (\<lambda>d. Maxpool (int d + 1)) ` {0..<k}"
    by simp_all
  have c1': "c1 = chan_in a (a_depth a)"
    unfolding c1 k_def by (cases "0 \<le> a_depth a") (simp_all add: chan_in_def)
  from br obtain cm where
    cm: "ConvMod_init c1 fs ks (a_activation a) (a_residual a) (a_use_bn a)
            (a_momentum a) (a_track a) g = Inr cm" and
    m2: "m2 = add_module (Convmod (a_depth a)) (ConvModule cm) m1"
    by (auto simp: add_conv_mod_Inr)
  have b2: "as_built a g m2"
    unfolding m2 using b1 cm py_index_sizes_Inr[OF ks] py_index_chan[OF fs] c1'
    by (auto intro!: as_built_add)
  have k2: "fst ` set m2 = Convmod ` int ` {0..<k} \<union> (\<lambda>d. Maxpool (int d + 1)) ` {0..<k}
      \<union> {Convmod (a_depth a)}"
    by (auto simp: m2 keys_add_module k1)
  have fk: "0 < k \<longrightarrow> fs = chan a (int k)"
    using py_index_chan[OF fs] by (auto simp: k_def)
  from expanding_init_as_built[OF ex b2 fk]
  have b3: "as_built a g m3" and c3: "c3 = (if k = 0 then fs else chan a 0)"
    and k3: "fst ` set m3 = fst ` set m2 \<union> UpsampleN ` int ` {0..<k} \<union> Dconvmod ` int ` {0..<k}"
    by simp_all
  show "as_built a g (net_modules net)" by (simp add: net b3)
  show "fst ` set (net_modules net) =
           Convmod ` int ` {0..<k} \<union> (\<lambda>d. Maxpool (int d + 1)) ` {0..<k}
           \<union> {Convmod (a_depth a)} \<union> UpsampleN ` int ` {0..<k} \<union> Dconvmod ` int ` {0..<k}"
    by (simp add: net k3 k2)
  have s1: "pooling_stages m1 = k" "upsample_stages m1 = 0"
    using contracting_init_stages[OF ct]
    by (simp_all add: pooling_stages_def upsample_stages_def)
  have fr: "Convmod (a_depth a) \<notin> fst ` set m1"
    unfolding k1 k_def by auto
  have s2: "pooling_stages m2 = k" "upsample_stages m2 = 0"
    using s1 stages_add_module[OF fr, of "ConvModule cm"] by (simp_all add: m2)
  have fr2: "\<forall>d<k. UpsampleN (int d) \<notin> fst ` set m2 \<and> Dconvmod (int d) \<notin> fst ` set m2"
    unfolding k2 by auto
  from expanding_init_stages[OF ex fr2] s2
  show "pooling_stages (net_modules net) = k" "upsample_stages (net_modules net) = k"
    by (simp_all add: net)
  have c3': "c3 = (if k = 0 then chan a (a_depth a) else chan a 0)"
    using c3 py_index_chan[OF fs] by simp
  from eo show "if a_init_stride a = Scalar 1
         then \<exists>e. net_embed_out net = Plain e \<and>
                EmbeddingMod_init (if k = 0 then chan a (a_depth a) else chan a 0) embed_nout
                  embed_ks (a_activation a) (Scalar 1) g = Inr e
         else \<exists>e. net_embed_out net = Upsampling e \<and>
                EmbeddingModUP_init (if k = 0 then chan a (a_depth a) else chan a 0) embed_nout
                  embed_ks (a_activation a) (a_init_stride a) = Inr e"
    unfolding c3'[symmetric] by (auto simp: net bind_eq_Inr split: if_splits)
qed

subsection \<open>The table of kernel sizes\<close>

lemma Conv_init_no_bias:
  "Conv_init i oc ks st pad False g =
     Inr (Conv (kaiming_normal_weight
       (new_layer (if MODE g = ''tvm'' then TVM else Torch) False i oc ks st pad
          (Scalar 0) False)))"
  by (simp add: Conv_init_def)

lemma Conv_init_bias: "Conv_init i oc ks st pad True g = Inl AttributeError"
  by (simp add: Conv_init_def new_layer_def kaiming_normal_weight_def constant_bias_def Let_def)

lemma ConvMod_init_use_bn:
  "\<exists>cm. ConvMod_init c fs (Tuple [3, 3, 3]) act res True mom tr g = Inr cm"
  by (simp add: ConvMod_init_def triple_def ntuple_def pad_size_same_3 Conv_init_no_bias
      Let_def)

lemma ConvMod_init_no_bn:
  "ConvMod_init c fs (Tuple [3, 3, 3]) act res False mom tr g = Inl AttributeError"
  by (simp add: ConvMod_init_def triple_def ntuple_def pad_size_same_3 Conv_init_bias
      Let_def)

lemma EmbeddingMod_init_embed_ks:
  "\<exists>e. EmbeddingMod_init c fs embed_ks act st g = Inr e"
  by (simp add: EmbeddingMod_init_def embed_ks_def pad_size_def triple_def ntuple_def
      Conv_init_no_bias)

lemma contracting_init_in_table:
  assumes "a_use_bn a" "k \<le> 5" "k \<le> length (a_nfeatures a)"
  shows "\<exists>r. contracting_init a g (map int [i..<k]) c mods = Inr r"
proof (induction "k - i" arbitrary: i c mods)
  case 0
  then show ?case by simp
next
  case (Suc n)
  then have ik: "i < k" and n: "n = k - Suc i" by simp_all
  from ik have l: "map int [i..<k] = int i # map int [Suc i..<k]"
    by (simp add: upt_conv_Cons)
  obtain cm where cm: "ConvMod_init c (a_nfeatures a ! i) (Tuple [3, 3, 3]) (a_activation a)
      (a_residual a) (a_use_bn a) (a_momentum a) (a_track a) g = Inr cm"
    using ConvMod_init_use_bn assms(1) by metis
  have fs: "py_index (a_nfeatures a) (int i) = Inr (a_nfeatures a ! i)"
    using ik assms(3) by (simp add: py_index_def)
  from Suc.hyps(1)[OF n] ik assms(2) show ?case
    unfolding l contracting_init_step by (simp add: fs cm)
qed

lemma contracting_init_beyond_table:
  assumes "a_use_bn a" "5 < k" "k \<le> length (a_nfeatures a)"
  shows "i \<le> 5 \<Longrightarrow> contracting_init a g (map int [i..<k]) c mods = Inl IndexError"
proof (induction "5 - i" arbitrary: i c mods)
  case 0
  then have i: "i = 5" by simp
  have l: "map int [5..<k] = 5 # map int [6..<k]"
    using assms(2) by (simp add: upt_conv_Cons)
  have fs: "py_index (a_nfeatures a) 5 = Inr (a_nfeatures a ! 5)"
    using assms(2,3) by (simp add: py_index_def)
  show ?case unfolding i l by (simp add: fs py_index_sizes)
next
  case (Suc n)
  then have i5: "i < 5" and n: "n = 5 - Suc i" and ik: "i < k" using assms(2) by simp_all
  from ik have l: "map int [i..<k] = int i # map int [Suc i..<k]"
    by (simp add: upt_conv_Cons)
  obtain cm where cm: "ConvMod_init c (a_nfeatures a ! i) (Tuple [3, 3, 3]) (a_activation a)
      (a_residual a) (a_use_bn a) (a_momentum a) (a_track a) g = Inr cm"
    using ConvMod_init_use_bn assms(1) by metis
  have fs: "py_index (a_nfeatures a) (int i) = Inr (a_nfeatures a ! i)"
    using ik assms(3) by (simp add: py_index_def)
  have "Suc i \<le> 5" using i5 by simp
  from Suc.hyps(1)[OF n this] i5 show ?case
    unfolding l by (simp add: fs py_index_sizes add_conv_mod_def cm)
qed

lemma RSUNet_body_beyond_table:
  assumes "5 \<le> a_depth a" "a_depth a < int (length (a_nfeatures a))" "a_use_bn a"
  shows "RSUNet_body a g = Inl IndexError"
proof -
  obtain e where e: "EmbeddingMod_init 1 embed_nin embed_ks (a_activation a)
      (a_init_stride a) g = Inr e"
    using EmbeddingMod_init_embed_ks by blast
  have fs: "py_index (a_nfeatures a) (a_depth a) = Inr (a_nfeatures a ! nat (a_depth a))"
    using assms(1,2) by (simp add: py_index_def)
  show ?thesis
  proof (cases "a_depth a = 5")
    case True
    obtain r where r: "contracting_init a g (map int [0..<5]) embed_nin [] = Inr r"
      using contracting_init_in_table[OF assms(3), of 5 g 0 embed_nin "[]"] assms(2) True
      by auto
    show ?thesis
      using assms(2) r True fs e
      by (simp add: RSUNet_body_def py_range_def py_index_sizes split: prod.splits)
  next
    case False
    then have "5 < nat (a_depth a)" "nat (a_depth a) \<le> length (a_nfeatures a)"
      using assms(1,2) by simp_all
    from contracting_init_beyond_table[OF assms(3) this, of 0 g embed_nin "[]"]
    show ?thesis using assms(2) e
      by (simp add: RSUNet_body_def py_range_def)
  qed
qed

text \<open>
  C10 (as the code has it): the kernel sizes come from the module-level list \<^verbatim>\<open>sizes\<close>,
  of length 5. With a schedule longer than that, a depth of 5 or more below the
  schedule's length, and batch normalisation (the default), the constructor raises
  \<^verbatim>\<open>IndexError\<close>.
\<close>

theorem sizes_table_IndexError:
  assumes "5 \<le> a_depth a" "a_depth a < int (length (a_nfeatures a))" "a_use_bn a"
  shows "length sizes = 5 \<and> fst (RSUNet_init a g) = Inl IndexError"
  using RSUNet_body_beyond_table[OF assms]
  by (simp add: RSUNet_init_def sizes_def nfeatures_def Let_def)

theorem sizes_table_IndexError_witness:
  "5 \<le> a_depth (scenario\<lparr>a_depth := 7, a_nfeatures := [8, 16, 32, 64, 128, 256, 512, 1024]\<rparr>)
   \<and> a_depth (scenario\<lparr>a_depth := 7, a_nfeatures := [8, 16, 32, 64, 128, 256, 512, 1024]\<rparr>)
       < int (length (a_nfeatures
           (scenario\<lparr>a_depth := 7, a_nfeatures := [8, 16, 32, 64, 128, 256, 512, 1024]\<rparr>)))
   \<and> a_use_bn (scenario\<lparr>a_depth := 7, a_nfeatures := [8, 16, 32, 64, 128, 256, 512, 1024]\<rparr>)
   \<and> length sizes = 5
   \<and> fst (RSUNet_init
        (scenario\<lparr>a_depth := 7, a_nfeatures := [8, 16, 32, 64, 128, 256, 512, 1024]\<rparr>)
        globals0) = Inl IndexError"
  using sizes_table_IndexError[of
      "scenario\<lparr>a_depth := 7, a_nfeatures := [8, 16, 32, 64, 128, 256, 512, 1024]\<rparr>" globals0]
  by (simp add: scenario_def)

subsection \<open>Errors of a forward pass\<close>















text \<open>A name that is registered is found, and what is found is the module built for it.\<close>

lemma getattr_built:
  assumes "as_built a g mods" "name \<in> fst ` set mods"
  shows "\<exists>m. getattr mods name = Inr m \<and> built a g name m"
proof -
  from assms(2) obtain m where m: "map_of mods name = Some m"
    by (metis map_of_eq_None_iff not_Some_eq)
  with assms(1) have "built a g name m" by (simp add: as_built_def)
  with m show ?thesis by (simp add: getattr_def)
qed

lemma getattr_Convmod:
  assumes "as_built a g mods" "Convmod d \<in> fst ` set mods"
  shows "\<exists>cm. getattr mods (Convmod d) = Inr (ConvModule cm) \<and>
           ConvMod_init (chan_in a d) (chan a d) (Tuple [3, 3, 3]) (a_activation a)
             (a_residual a) (a_use_bn a) (a_momentum a) (a_track a) g = Inr cm"
  using getattr_built[OF assms] by auto

lemma getattr_Dconvmod:
  assumes "as_built a g mods" "Dconvmod d \<in> fst ` set mods"
  shows "\<exists>cm. getattr mods (Dconvmod d) = Inr (ConvModule cm) \<and>
           ConvMod_init (chan a d) (chan a d) (Tuple [3, 3, 3]) (a_activation a)
             (a_residual a) (a_use_bn a) (a_momentum a) (a_track a) g = Inr cm"
  using getattr_built[OF assms] by auto

lemma getattr_Maxpool:
  assumes "as_built a g mods" "Maxpool d \<in> fst ` set mods"
  shows "getattr mods (Maxpool d) = Inr (MaxPool3d (Scalar 2))"
  using getattr_built[OF assms] by auto

lemma getattr_UpsampleN:
  assumes "as_built a g mods" "UpsampleN d \<in> fst ` set mods"
  shows "\<exists>um. getattr mods (UpsampleN d) = Inr (UpsampleModule um) \<and>
           UpsampleMod_init (chan a (d + 1)) (chan a d) (Scalar 2) (a_upsample a)
             (a_activation a) (a_use_bn a) (a_momentum a) (a_track a) g = Inr um"
  using getattr_built[OF assms] by auto

lemma contracting_length:
  "contracting E mods ds x skip = Inr (y, skip') \<Longrightarrow> length skip' = length skip + length ds"
  by (induction ds arbitrary: x skip) (auto simp: bind_eq_Inr)




lemma UpsampleMod_init_unknown:
  "mode \<notin> set [''bilinear'', ''nearest'', ''transpose'']
   \<Longrightarrow> UpsampleMod_init cin cout up mode act use_bn mom tr g = Inl AssertionError"
  by (simp add: UpsampleMod_init_def)

lemma scenario_constructs: "\<exists>net. fst (RSUNet_init scenario globals0) = Inr net"
  using scenario_embed_out_eval by (auto split: sum.splits)


subsection \<open>The skip tensors\<close>

lemma contracting_extends:
  "contracting E mods ds x skip = Inr (y, skip') \<Longrightarrow>
   \<exists>new. skip' = skip @ new \<and> length new = length ds"
proof (induction ds arbitrary: x skip)
  case Nil
  then show ?case by simp
next
  case (Cons d ds)
  from Cons.prems obtain x1 x2 where
    "contracting E mods ds x2 (skip @ [x1]) = Inr (y, skip')"
    by (auto simp: bind_eq_Inr Let_def)
  from Cons.IH[OF this] show ?case by auto
qed

lemma contracting_lifo_sim:
  "contracting_lifo E mods ds x stack =
     (case contracting E mods ds x skip of
        Inl e \<Rightarrow> Inl e
      | Inr (y, skip') \<Rightarrow> Inr (y, rev (zip ds (drop (length skip) skip')) @ stack))"
proof (induction ds arbitrary: x skip stack)
  case Nil
  then show ?case by simp
next
  case (Cons d ds)
  show ?case
  proof (cases "getattr mods (Convmod d)")
    case (Inl e)
    then show ?thesis by simp
  next
    case cm: (Inr convmod)
    show ?thesis
    proof (cases "getattr mods (Maxpool (d + 1))")
      case (Inl e)
      then show ?thesis by (simp add: cm)
    next
      case mp: (Inr maxpool)
      show ?thesis
      proof (cases "call1 E convmod x")
        case (Inl e)
        then show ?thesis by (simp add: cm mp)
      next
        case x1: (Inr x1)
        show ?thesis
        proof (cases "call1 E maxpool x1")
          case (Inl e)
          then show ?thesis by (simp add: cm mp x1)
        next
          case x2: (Inr x2)
          show ?thesis
          proof (cases "contracting E mods ds x2 (skip @ [x1])")
            case (Inl e)
            then show ?thesis
              using Cons.IH[of x2 "(d, x1) # stack" "skip @ [x1]"]
              by (simp add: cm mp x1 x2)
          next
            case (Inr r)
            obtain y skip' where r: "r = (y, skip')" by (cases r)
            from contracting_extends[OF Inr[unfolded r]] obtain new where
              new: "skip' = (skip @ [x1]) @ new" by blast
            show ?thesis
              using Cons.IH[of x2 "(d, x1) # stack" "skip @ [x1]"] Inr
              by (simp add: cm mp x1 x2 r new)
          qed
        qed
      qed
    qed
  qed
qed

lemma zip_upt_Suc:
  assumes "j < length skip"
  shows "zip (map int [0..<Suc j]) skip = zip (map int [0..<j]) skip @ [(int j, skip ! j)]"
proof -
  have "zip (map int [0..<Suc j]) skip = take (Suc j) (zip (map int [0..<Suc j]) skip)"
    using assms by simp
  also have "\<dots> = zip (map int [0..<Suc j]) (take (Suc j) skip)"
    by (simp add: take_zip del: upt_Suc)
  also have "\<dots> = zip (map int [0..<j] @ [int j]) (take j skip @ [skip ! j])"
    using assms by (simp add: take_Suc_conv_app_nth)
  also have "\<dots> = zip (map int [0..<j]) (take j skip) @ [(int j, skip ! j)]"
    using assms by (subst zip_append) simp_all
  also have "zip (map int [0..<j]) (take j skip) = take j (zip (map int [0..<j]) skip)"
    by (simp add: take_zip)
  also have "\<dots> = zip (map int [0..<j]) skip"
    using assms by simp
  finally show ?thesis .
qed

lemma expanding_lifo_sim:
  "j \<le> length skip \<Longrightarrow>
   expanding_lifo E mods (rev (map int [0..<j])) x (rev (zip (map int [0..<j]) skip))
     = Some (expanding E mods (rev (map int [0..<j])) x skip)"
proof (induction j arbitrary: x)
  case 0
  then show ?case by simp
next
  case (Suc j)
  then have j: "j < length skip" by simp
  have l: "rev (map int [0..<Suc j]) = int j # rev (map int [0..<j])" by simp
  have st: "rev (zip (map int [0..<Suc j]) skip)
      = (int j, skip ! j) # rev (zip (map int [0..<j]) skip)"
    by (simp only: zip_upt_Suc[OF j] rev_append rev.simps append.simps)
  have sk: "py_index skip (int j) = Inr (skip ! j)"
    using j by (simp add: py_index_def)
  have ih: "expanding_lifo E mods (rev (map int [0..<j])) x' (rev (zip (map int [0..<j]) skip))
     = Some (expanding E mods (rev (map int [0..<j])) x' skip)" for x'
    using Suc.IH j by simp
  show ?case
    unfolding l st
    by (simp add: sk ih split: sum.splits)
qed

lemma RSUNet_forward_lifo_eq:
  "RSUNet_forward_lifo E net x = Some (RSUNet_forward E net x)"
proof (cases "EmbeddingMod_forward E (net_embed_in net) x")
  case (Inl e)
  then show ?thesis by (simp add: RSUNet_forward_lifo_def RSUNet_forward_def)
next
  case x0: (Inr x0)
  let ?ds = "py_range (net_depth net)"
  note sim = contracting_lifo_sim[of E "net_modules net" ?ds x0 "[]" "[]"]
  show ?thesis
  proof (cases "contracting E (net_modules net) ?ds x0 []")
    case (Inl e)
    then show ?thesis
      using sim by (simp add: RSUNet_forward_lifo_def RSUNet_forward_def x0)
  next
    case (Inr r)
    obtain x1 skip where r: "r = (x1, skip)" by (cases r)
    have len: "length skip = nat (net_depth net)"
      using contracting_length[OF Inr[unfolded r]] by (simp add: py_range_def)
    have cl: "contracting_lifo E (net_modules net) ?ds x0 []
      = Inr (x1, rev (zip (map int [0..<nat (net_depth net)]) skip))"
      using sim Inr by (simp add: r py_range_def)
    have ex: "expanding_lifo E (net_modules net) (rev ?ds) x2
        (rev (zip (map int [0..<nat (net_depth net)]) skip))
      = Some (expanding E (net_modules net) (rev ?ds) x2 skip)" for x2
      unfolding py_range_def by (rule expanding_lifo_sim) (simp add: len)
    let ?br = "bind (getattr (net_modules net) (Convmod (net_depth net)))
      (\<lambda>bridge. call1 E bridge x1)"
    have fw: "RSUNet_forward E net x =
      bind ?br (\<lambda>x2.
      bind (expanding E (net_modules net) (rev ?ds) x2 skip) (\<lambda>x3.
      bind (embedding_forward E (net_embed_out net) x3)
        (OutputMod_forward E (net_output net))))"
      by (simp add: RSUNet_forward_def x0 Inr r bind_assoc)
    have lf: "RSUNet_forward_lifo E net x =
      (case ?br of
         Inl e \<Rightarrow> Some (Inl e)
       | Inr x2 \<Rightarrow>
           (case expanding E (net_modules net) (rev ?ds) x2 skip of
              Inl e \<Rightarrow> Some (Inl e)
            | Inr x3 \<Rightarrow>
                Some (bind (embedding_forward E (net_embed_out net) x3)
                        (OutputMod_forward E (net_output net)))))"
      by (simp add: RSUNet_forward_lifo_def x0 cl ex cong: sum.case_cong)
    show ?thesis
    proof (cases ?br)
      case (Inl e)
      then show ?thesis unfolding fw lf by simp
    next
      case x2: (Inr x2)
      show ?thesis
        unfolding fw lf x2
        by (cases "expanding E (net_modules net) (rev ?ds) x2 skip") simp_all
    qed
  qed
qed

text \<open>Evaluation at a concrete configuration and input, by unfolding.\<close>

lemma bind_weak_cong: "m = m' \<Longrightarrow> bind m f = bind m' f"
  by simp

lemma triple_Scalar: "triple (Scalar v) = Tuple [v, v, v]"
  by (simp add: triple_def ntuple_def eval_nat_numeral)

lemma triple_Tuple: "triple (Tuple xs) = Tuple xs"
  by (simp add: triple_def ntuple_def)

lemmas init_defs = RSUNet_init_def RSUNet_body_def EmbeddingMod_init_def EmbeddingModUP_init_def
  OutputMod_init_def ConvMod_init_def UpsampleMod_init_def Conv_init_def ConvT_init_def
  add_conv_mod_def add_dconv_mod_def add_max_pool_def add_upsample_mod_def add_module_def
  pad_size_def triple_Scalar triple_Tuple py_index_def py_range_def sizes_def nfeatures_def
  embed_ks_def embed_nin_def embed_nout_def new_layer_def kaiming_normal_weight_def
  constant_bias_def batchnorm_def globals0_def upt_conv_Cons

lemmas forward_defs = RSUNet_forward_def EmbeddingMod_forward_def EmbeddingModUP_forward_def
  ConvMod_forward_def UpsampleMod_forward_def residual_sum_def getattr_def py_index_def
  py_range_def upt_conv_Cons

lemmas shape_defs = shape_engine_def conv3d_shape_def conv_transpose3d_shape_def
  batch_norm_shape_def max_pool3d_shape_def interpolate_shape_def add_shape_def conv_out_def
  convT_out_def pool_out_def interp_out_def elu_shape_def triple_Scalar triple_Tuple

lemma unit_stride_constructs: "\<exists>net. fst (RSUNet_init unit_stride globals0) = Inr net"
  by (simp add: unit_stride_def scenario_def init_defs Let_def cong: bind_weak_cong)

lemma unit_stride_forward:
  "fst (RSUNet_init unit_stride globals0) = Inr net \<Longrightarrow>
   RSUNet_forward (shape_engine True) net [1, 1, 16, 64, 64] = Inr [1, 3, 16, 64, 64]"
  by (clarsimp simp add: unit_stride_def scenario_def init_defs forward_defs shape_defs
      Let_def cong: bind_weak_cong)

text \<open>
  C2: a network that was constructed has as many pooling stages and as many upsampling
  stages as its depth. The contracting loop of \<^verbatim>\<open>forward\<close> records one tensor per stage,
  and the pass as the code runs it, reading \<^verbatim>\<open>skip[d]\<close> at the expanding stage \<open>d\<close>, is the
  pass that pops a stack: the expanding stage \<open>d\<close> takes the tensor that the contracting
  stage \<open>d\<close> pushed, the last pushed first.
\<close>

theorem skip_pairing:
  assumes "fst (RSUNet_init a g) = Inr net"
  shows "pooling_stages (net_modules net) = nat (a_depth a)
     \<and> upsample_stages (net_modules net) = nat (a_depth a)
     \<and> net_depth net = a_depth a
     \<and> RSUNet_forward_lifo E net x = Some (RSUNet_forward E net x)
     \<and> (\<forall>x0 y skip.
          contracting E (net_modules net) (py_range (net_depth net)) x0 [] = Inr (y, skip)
          \<longrightarrow> length skip = nat (net_depth net))"
proof -
  from assms have b: "RSUNet_body a (g\<lparr>MODE := a_mode a\<rparr>) = Inr net"
    by (simp add: RSUNet_init_def Let_def)
  note f = RSUNet_body_Inr[OF b]
  show ?thesis
    using f(3,7,8) RSUNet_forward_lifo_eq[of E net x]
    by (auto dest: contracting_length simp: py_range_def)
qed

theorem skip_pairing_witness:
  "\<exists>net. fst (RSUNet_init unit_stride globals0) = Inr net
     \<and> pooling_stages (net_modules net) = 2 \<and> upsample_stages (net_modules net) = 2
     \<and> net_depth net = 2
     \<and> RSUNet_forward_lifo (shape_engine True) net [1, 1, 16, 64, 64]
         = Some (Inr [1, 3, 16, 64, 64])"
proof -
  obtain net where net: "fst (RSUNet_init unit_stride globals0) = Inr net"
    using unit_stride_constructs by blast
  note fw = unit_stride_forward[OF net]
  have d: "a_depth unit_stride = 2" by (simp add: unit_stride_def scenario_def)
  show ?thesis
    using skip_pairing[OF net, of "shape_engine True" "[1, 1, 16, 64, 64]"] net fw d
    by auto
qed

subsection \<open>Shapes through the modules\<close>

lemma conv_out_same_3: "0 < i \<Longrightarrow> conv_out i 3 1 1 = Inr i"
  by (simp add: conv_out_def)

lemma conv_out_same_5: "0 < i \<Longrightarrow> conv_out i 5 1 2 = Inr i"
  by (simp add: conv_out_def)

lemma conv_out_same_1: "0 < i \<Longrightarrow> conv_out i 1 1 0 = Inr i"
  by (simp add: conv_out_def)

lemma pool_out_2: "2 \<le> i \<Longrightarrow> pool_out i 2 = Inr (i div 2)"
  by (simp add: pool_out_def)

lemma interp_out_2: "0 < i \<Longrightarrow> interp_out i 2 = Inr (2 * i)"
  by (simp add: interp_out_def nat_mult_distrib)

lemma convT_out_2: "0 < i \<Longrightarrow> convT_out strict i 2 2 0 0 = Inr (2 * i)"
  by (simp add: convT_out_def)

lemma add_shape_same: "add_shape [n, c, d, h, w] [n, c, d, h, w] = Inr [n, c, d, h, w]"
  by (simp add: add_shape_def)

lemma batch_norm_shape_ok:
  "n * d * h * w \<noteq> 1 \<Longrightarrow> batch_norm_shape c mom tr [n, c, d, h, w] = Inr [n, c, d, h, w]"
  by (simp add: batch_norm_shape_def)

lemma Conv_forward_same_3:
  assumes "0 < d" "0 < h" "0 < w"
  shows "Conv_forward (shape_engine s)
     (Conv (kaiming_normal_weight (new_layer b False cin cout (Tuple [3, 3, 3])
        (Tuple [1, 1, 1]) (Tuple [1, 1, 1]) op False))) [n, cin, d, h, w]
     = Inr [n, cout, d, h, w]"
  using assms
  by (simp add: shape_engine_def conv3d_shape_def new_layer_def kaiming_normal_weight_def
      triple_Tuple conv_out_same_3)

lemma ConvMod_shape:
  assumes "ConvMod_init cin cout (Tuple [3, 3, 3]) elu_shape res use_bn mom tr g = Inr cm"
    and "0 < d" "0 < h" "0 < w" "n * d * h * w \<noteq> 1"
  shows "ConvMod_forward (shape_engine s) cm [n, cin, d, h, w] = Inr [n, cout, d, h, w]"
proof -
  have bn: "use_bn" using assms(1) ConvMod_init_no_bn[of cin cout elu_shape res mom tr g]
    by (cases use_bn) auto
  have cm: "cm = \<lparr>cm_conv1 = Conv (kaiming_normal_weight (new_layer
        (if MODE g = ''tvm'' then TVM else Torch) False cin cout (Tuple [3, 3, 3])
        (Tuple [1, 1, 1]) (Tuple [1, 1, 1]) (Scalar 0) False)),
      cm_conv2 = Conv (kaiming_normal_weight (new_layer
        (if MODE g = ''tvm'' then TVM else Torch) False cout cout (Tuple [3, 3, 3])
        (Tuple [1, 1, 1]) (Tuple [1, 1, 1]) (Scalar 0) False)),
      cm_conv3 = Conv (kaiming_normal_weight (new_layer
        (if MODE g = ''tvm'' then TVM else Torch) False cout cout (Tuple [3, 3, 3])
        (Tuple [1, 1, 1]) (Tuple [1, 1, 1]) (Scalar 0) False)),
      cm_bn1 = BatchNorm3d cout mom tr, cm_bn2 = BatchNorm3d cout mom tr,
      cm_bn3 = BatchNorm3d cout mom tr, cm_activation = elu_shape, cm_residual = res\<rparr>"
    using assms(1) bn
    by (simp add: ConvMod_init_def triple_Tuple pad_size_same_3 Conv_init_no_bias Let_def
        batchnorm_def)
  have b: "lift (batch_norm (shape_engine s) cout mom tr [n, cout, d, h, w])
      = Inr [n, cout, d, h, w]"
    using assms(5) by (simp add: shape_engine_def batch_norm_shape_ok)
  have ad: "lift (add (shape_engine s) [n, cout, d, h, w] [n, cout, d, h, w])
      = Inr [n, cout, d, h, w]"
    by (simp add: shape_engine_def add_shape_same)
  show ?thesis
    unfolding cm ConvMod_forward_def
    using assms(2-4)
    by (simp add: Conv_forward_same_3 b ad elu_shape_def residual_sum_def Let_def
        del: Conv_forward.simps)
qed

lemma max_pool_shape_2:
  assumes "2 \<le> d" "2 \<le> h" "2 \<le> w"
  shows "call1 (shape_engine s) (MaxPool3d (Scalar 2)) [n, c, d, h, w]
     = Inr [n, c, d div 2, h div 2, w div 2]"
  using assms
  by (simp add: shape_engine_def max_pool3d_shape_def triple_Scalar pool_out_2)

lemma even_product_not_1: "(n::nat) * (2 * d) * (2 * h) * (2 * w) \<noteq> 1"
proof
  assume "n * (2 * d) * (2 * h) * (2 * w) = 1"
  then have "2 * (n * d * (2 * h) * (2 * w)) = 1" by (simp add: mult_ac)
  then show False by presburger
qed

lemma UpsampleMod_shape:
  assumes "UpsampleMod_init cin cout (Scalar 2) mode elu_shape use_bn mom tr g = Inr um"
    and "0 < d" "0 < h" "0 < w"
  shows "UpsampleMod_forward (shape_engine s) um [n, cin, d, h, w]
           [n, cout, 2 * d, 2 * h, 2 * w] = Inr [n, cout, 2 * d, 2 * h, 2 * w]"
proof -
  have ad: "lift (add (shape_engine s) [n, cout, 2 * d, 2 * h, 2 * w]
      [n, cout, 2 * d, 2 * h, 2 * w]) = Inr [n, cout, 2 * d, 2 * h, 2 * w]"
    by (simp add: shape_engine_def add_shape_same)
  have bn: "norm_forward (shape_engine s) (batchnorm cout use_bn mom tr)
      [n, cout, 2 * d, 2 * h, 2 * w] = Inr [n, cout, 2 * d, 2 * h, 2 * w]"
    using even_product_not_1[of n d h w]
    by (simp add: batchnorm_def shape_engine_def batch_norm_shape_ok)
  have known: "mode = ''bilinear'' \<or> mode = ''nearest'' \<or> mode = ''transpose''"
    using assms(1) UpsampleMod_init_unknown[of mode cin cout "Scalar 2" elu_shape use_bn mom tr g]
    by auto
  have cv: "Conv_forward (shape_engine s)
      (Conv (kaiming_normal_weight (new_layer b False cin cout (Tuple [1, 1, 1])
        (Tuple [1, 1, 1]) (Tuple [0, 0, 0]) (Scalar 0) False)))
      [n, cin, 2 * d, 2 * h, 2 * w] = Inr [n, cout, 2 * d, 2 * h, 2 * w]" for b
    using assms(2-4)
    by (simp add: shape_engine_def conv3d_shape_def new_layer_def kaiming_normal_weight_def
      triple_Tuple conv_out_same_1)
  have ip: "lift (interpolate (shape_engine s) (Scalar 2) m [n, cin, d, h, w])
      = Inr [n, cin, 2 * d, 2 * h, 2 * w]" if "m = ''trilinear'' \<or> m = ''nearest''" for m
    using assms(2-4) that
    by (auto simp: shape_engine_def interpolate_shape_def triple_Scalar interp_out_2)
  have ct: "ConvT_forward (shape_engine s)
      (ConvT (kaiming_normal_weight (new_layer Torch True cin cout (Scalar 2) (Scalar 2)
         (Scalar 0) (Scalar 0) False))) [n, cin, d, h, w] = Inr [n, cout, 2 * d, 2 * h, 2 * w]"
    using assms(2-4)
    by (simp add: shape_engine_def conv_transpose3d_shape_def new_layer_def
        kaiming_normal_weight_def triple_Scalar convT_out_2)
  from known show ?thesis
  proof (elim disjE)
    assume m: "mode = ''bilinear''"
    have um: "um = \<lparr>um_up = Upsample (Scalar 2) ''trilinear'',
        um_conv = Some (Conv (kaiming_normal_weight (new_layer
          (if MODE g = ''tvm'' then TVM else Torch) False cin cout (Tuple [1, 1, 1])
          (Tuple [1, 1, 1]) (Tuple [0, 0, 0]) (Scalar 0) False))),
        um_bn = batchnorm cout use_bn mom tr, um_activation = elu_shape\<rparr>"
      using assms(1) by (simp add: m UpsampleMod_init_def Conv_init_no_bias)
    show ?thesis
      unfolding um UpsampleMod_forward_def
      by (simp add: ip cv ad bn elu_shape_def del: Conv_forward.simps)
  next
    assume m: "mode = ''nearest''"
    have um: "um = \<lparr>um_up = Upsample (Scalar 2) ''nearest'',
        um_conv = Some (Conv (kaiming_normal_weight (new_layer
          (if MODE g = ''tvm'' then TVM else Torch) False cin cout (Tuple [1, 1, 1])
          (Tuple [1, 1, 1]) (Tuple [0, 0, 0]) (Scalar 0) False))),
        um_bn = batchnorm cout use_bn mom tr, um_activation = elu_shape\<rparr>"
      using assms(1) by (simp add: m UpsampleMod_init_def Conv_init_no_bias)
    show ?thesis
      unfolding um UpsampleMod_forward_def
      by (simp add: ip cv ad bn elu_shape_def del: Conv_forward.simps)
  next
    assume m: "mode = ''transpose''"
    have um: "um = \<lparr>um_up = UpConvT (ConvT (kaiming_normal_weight (new_layer Torch True
          cin cout (Scalar 2) (Scalar 2) (Scalar 0) (Scalar 0) False))),
        um_conv = None,
        um_bn = batchnorm cout use_bn mom tr, um_activation = elu_shape\<rparr>"
      using assms(1) by (simp add: m UpsampleMod_init_def ConvT_init_def)
    show ?thesis
      unfolding um UpsampleMod_forward_def
      by (simp add: ct ad bn elu_shape_def del: ConvT_forward.simps)
  qed
qed

lemma EmbeddingMod_shape:
  assumes "EmbeddingMod_init cin cout embed_ks elu_shape (Scalar 1) g = Inr e"
    and "0 < d" "0 < h" "0 < w"
  shows "EmbeddingMod_forward (shape_engine s) e [n, cin, d, h, w] = Inr [n, cout, d, h, w]"
proof -
  have e: "e = \<lparr>em_conv = Conv (kaiming_normal_weight (new_layer
        (if MODE g = ''tvm'' then TVM else Torch) False cin cout (Tuple [1, 5, 5])
        (Scalar 1) (Tuple [0, 2, 2]) (Scalar 0) False)), em_activation = elu_shape\<rparr>"
    using assms(1)
    by (simp add: EmbeddingMod_init_def embed_ks_def pad_size_def triple_Tuple
        Conv_init_no_bias)
  show ?thesis
    unfolding e EmbeddingMod_forward_def using assms(2-4)
    by (simp add: shape_engine_def conv3d_shape_def new_layer_def kaiming_normal_weight_def
        triple_Tuple triple_Scalar conv_out_same_1 conv_out_same_5 elu_shape_def)
qed

lemma OutputMod_shape:
  assumes "OutputMod_init cin cout (Scalar 1) g = Inr om"
    and "0 < d" "0 < h" "0 < w"
  shows "OutputMod_forward (shape_engine s) om [n, cin, d, h, w] = Inr [n, cout, d, h, w]"
proof -
  have om: "om = OutputMod (Conv (kaiming_normal_weight (new_layer
        (if MODE g = ''tvm'' then TVM else Torch) False cin cout (Scalar 1)
        (Scalar 1) (Tuple [0, 0, 0]) (Scalar 0) False)))"
    using assms(1)
    by (simp add: OutputMod_init_def pad_size_def triple_Scalar Conv_init_no_bias)
  show ?thesis
    unfolding om using assms(2-4)
    by (simp add: shape_engine_def conv3d_shape_def new_layer_def kaiming_normal_weight_def
        triple_Tuple triple_Scalar conv_out_same_1)
qed

subsection \<open>Shapes through the contracting and the expanding path\<close>

lemma dvd_half:
  assumes "2 ^ Suc j dvd (D::nat)" "0 < D"
  shows "2 \<le> D" "2 ^ j dvd D div 2" "0 < D div 2" "2 * (D div 2) = D"
proof -
  from assms(1) obtain q where q: "D = 2 ^ Suc j * q" by (auto simp: dvd_def)
  with assms(2) have q0: "0 < q" by simp
  have h: "D div 2 = 2 ^ j * q" by (simp add: q)
  show "2 ^ j dvd D div 2" by (simp add: h)
  show "0 < D div 2" using q0 by (simp add: h)
  show "2 * (D div 2) = D" by (simp add: h q)
  then show "2 \<le> D" using \<open>0 < D div 2\<close> by linarith
qed

lemma div_pow_Suc: "(D::nat) div 2 div 2 ^ t = D div 2 ^ Suc t"
  by (simp add: div_mult2_eq)

lemma even_dims_not_1:
  assumes "2 \<le> (D::nat)" "2 * (D div 2) = D"
  shows "n * D * H * W \<noteq> 1"
proof
  assume "n * D * H * W = 1"
  then have "n * (2 * (D div 2)) * H * W = 1" using assms(2) by simp
  then have "2 * (n * (D div 2) * H * W) = 1" by (simp add: mult_ac)
  then show False by presburger
qed

lemma contracting_shape:
  assumes "as_built a g mods" "a_activation a = elu_shape"
  shows "\<forall>d. i \<le> d \<and> d < i + j \<longrightarrow> Convmod (int d) \<in> fst ` set mods
              \<and> Maxpool (int d + 1) \<in> fst ` set mods
    \<Longrightarrow> 2 ^ j dvd D \<Longrightarrow> 2 ^ j dvd H \<Longrightarrow> 2 ^ j dvd W \<Longrightarrow> 0 < D \<Longrightarrow> 0 < H \<Longrightarrow> 0 < W
    \<Longrightarrow> contracting (shape_engine s) mods (map int [i..<i + j])
          [n, chan_in a (int i), D, H, W] skip
        = Inr ([n, chan_in a (int (i + j)), D div 2 ^ j, H div 2 ^ j, W div 2 ^ j],
               skip @ map (\<lambda>t. [n, chan a (int (i + t)), D div 2 ^ t, H div 2 ^ t, W div 2 ^ t])
                        [0..<j])"
proof (induction j arbitrary: i D H W skip)
  case 0
  then show ?case by simp
next
  case (Suc j)
  have l: "map int [i..<i + Suc j] = int i # map int [Suc i..<Suc i + j]"
    by (simp add: upt_conv_Cons)
  note dD = dvd_half[OF Suc.prems(2) Suc.prems(5)]
  note dH = dvd_half[OF Suc.prems(3) Suc.prems(6)]
  note dW = dvd_half[OF Suc.prems(4) Suc.prems(7)]
  obtain cm where cm: "getattr mods (Convmod (int i)) = Inr (ConvModule cm)"
    and ci: "ConvMod_init (chan_in a (int i)) (chan a (int i)) (Tuple [3, 3, 3]) elu_shape
             (a_residual a) (a_use_bn a) (a_momentum a) (a_track a) g = Inr cm"
    using getattr_Convmod[OF assms(1), of "int i"] Suc.prems(1) assms(2) by auto
  have mp: "getattr mods (Maxpool (int i + 1)) = Inr (MaxPool3d (Scalar 2))"
    using getattr_Maxpool[OF assms(1), of "int i + 1"] Suc.prems(1) by auto
  have c1: "call1 (shape_engine s) (ConvModule cm) [n, chan_in a (int i), D, H, W]
      = Inr [n, chan a (int i), D, H, W]"
    using ConvMod_shape[OF ci Suc.prems(5-7) even_dims_not_1[OF dD(1) dD(4)]] by simp
  have c2: "call1 (shape_engine s) (MaxPool3d (Scalar 2)) [n, chan a (int i), D, H, W]
      = Inr [n, chan_in a (int (Suc i)), D div 2, H div 2, W div 2]"
    using max_pool_shape_2[OF dD(1) dH(1) dW(1)] chan_in_Suc[of "int i" a]
    by (simp add: add.commute)
  have keys: "\<forall>d. Suc i \<le> d \<and> d < Suc i + j \<longrightarrow> Convmod (int d) \<in> fst ` set mods
              \<and> Maxpool (int d + 1) \<in> fst ` set mods"
    using Suc.prems(1) by auto
  note ih = Suc.IH[OF keys dD(2) dH(2) dW(2) dD(3) dH(3) dW(3),
      of "skip @ [[n, chan a (int i), D, H, W]]"]
  have m: "map (\<lambda>t. [n, chan a (int (i + t)), D div 2 ^ t, H div 2 ^ t, W div 2 ^ t]) [0..<Suc j]
      = [n, chan a (int i), D, H, W]
        # map (\<lambda>t. [n, chan a (int (Suc i + t)), D div 2 div 2 ^ t, H div 2 div 2 ^ t,
                      W div 2 div 2 ^ t]) [0..<j]"
    unfolding map_upt_Suc div_pow_Suc by simp
  show ?case
    unfolding l m
    using ih
    by (simp add: cm mp c1 c2 Let_def div_pow_Suc del: call1.simps upt_Suc power_Suc)
qed

lemma dvd_pow_le:
  assumes "2 ^ k dvd (D::nat)" "j \<le> k"
  shows "2 ^ j dvd D"
  using assms by (meson dvd_trans le_imp_power_dvd)

lemma div_pow_pos:
  assumes "2 ^ j dvd (D::nat)" "0 < D"
  shows "0 < D div 2 ^ j"
  using assms by (auto simp: dvd_def)

lemma div_pow_double:
  assumes "2 ^ Suc j dvd (D::nat)"
  shows "D div 2 ^ j = 2 * (D div 2 ^ Suc j)"
proof -
  from assms obtain q where q: "D = 2 ^ Suc j * q" by (auto simp: dvd_def)
  have "D div 2 ^ j = 2 * q"
    unfolding q by simp
  moreover have "D div 2 ^ Suc j = q"
    unfolding q by simp
  ultimately show ?thesis by simp
qed

lemma expanding_shape:
  assumes "as_built a g mods" "a_activation a = elu_shape"
    and "0 < D" "0 < H" "0 < W"
    and "\<forall>t<length skip. skip ! t = [n, chan a (int t), D div 2 ^ t, H div 2 ^ t, W div 2 ^ t]"
  shows "\<forall>d<j. UpsampleN (int d) \<in> fst ` set mods \<and> Dconvmod (int d) \<in> fst ` set mods
    \<Longrightarrow> j \<le> length skip \<Longrightarrow> 2 ^ j dvd D \<Longrightarrow> 2 ^ j dvd H \<Longrightarrow> 2 ^ j dvd W
    \<Longrightarrow> 0 < j \<longrightarrow> c = chan a (int j)
    \<Longrightarrow> expanding (shape_engine s) mods (rev (map int [0..<j]))
          [n, c, D div 2 ^ j, H div 2 ^ j, W div 2 ^ j] skip
        = Inr [n, if j = 0 then c else chan a 0, D, H, W]"
proof (induction j arbitrary: c)
  case 0
  then show ?case by simp
next
  case (Suc j)
  have l: "rev (map int [0..<Suc j]) = int j # rev (map int [0..<j])" by simp
  have j: "j < length skip" using Suc.prems(2) by simp
  have c: "c = chan a (int j + 1)" using Suc.prems(6) by (simp add: add.commute)
  note dj = dvd_pow_le[OF Suc.prems(3), of j] dvd_pow_le[OF Suc.prems(4), of j]
    dvd_pow_le[OF Suc.prems(5), of j]
  note pos = div_pow_pos[OF Suc.prems(3) assms(3)] div_pow_pos[OF Suc.prems(4) assms(4)]
    div_pow_pos[OF Suc.prems(5) assms(5)]
  note dbl = div_pow_double[OF Suc.prems(3)] div_pow_double[OF Suc.prems(4)]
    div_pow_double[OF Suc.prems(5)]
  obtain um where um: "getattr mods (UpsampleN (int j)) = Inr (UpsampleModule um)"
    and ui: "UpsampleMod_init (chan a (int j + 1)) (chan a (int j)) (Scalar 2) (a_upsample a)
             elu_shape (a_use_bn a) (a_momentum a) (a_track a) g = Inr um"
    using getattr_UpsampleN[OF assms(1), of "int j"] Suc.prems(1) assms(2) by auto
  obtain cm where cm: "getattr mods (Dconvmod (int j)) = Inr (ConvModule cm)"
    and ci: "ConvMod_init (chan a (int j)) (chan a (int j)) (Tuple [3, 3, 3]) elu_shape
             (a_residual a) (a_use_bn a) (a_momentum a) (a_track a) g = Inr cm"
    using getattr_Dconvmod[OF assms(1), of "int j"] Suc.prems(1) assms(2) by auto
  have sk: "py_index skip (int j)
      = Inr [n, chan a (int j), D div 2 ^ j, H div 2 ^ j, W div 2 ^ j]"
    using j assms(6) by (simp add: py_index_def)
  have u: "call2 (shape_engine s) (UpsampleModule um)
      [n, c, D div 2 ^ Suc j, H div 2 ^ Suc j, W div 2 ^ Suc j]
      [n, chan a (int j), D div 2 ^ j, H div 2 ^ j, W div 2 ^ j]
      = Inr [n, chan a (int j), D div 2 ^ j, H div 2 ^ j, W div 2 ^ j]"
    unfolding dbl c using UpsampleMod_shape[OF ui pos] by simp
  have pj: "0 < D div 2 ^ j" "0 < H div 2 ^ j" "0 < W div 2 ^ j"
    using dbl pos by simp_all
  have n1: "n * (D div 2 ^ j) * (H div 2 ^ j) * (W div 2 ^ j) \<noteq> 1"
    unfolding dbl by (rule even_product_not_1)
  have dc: "call1 (shape_engine s) (ConvModule cm)
      [n, chan a (int j), D div 2 ^ j, H div 2 ^ j, W div 2 ^ j]
      = Inr [n, chan a (int j), D div 2 ^ j, H div 2 ^ j, W div 2 ^ j]"
    using ConvMod_shape[OF ci pj n1] by simp
  have keys: "\<forall>d<j. UpsampleN (int d) \<in> fst ` set mods \<and> Dconvmod (int d) \<in> fst ` set mods"
    using Suc.prems(1) by simp
  have ih: "expanding (shape_engine s) mods (rev (map int [0..<j]))
          [n, chan a (int j), D div 2 ^ j, H div 2 ^ j, W div 2 ^ j] skip
        = Inr [n, if j = 0 then chan a (int j) else chan a 0, D, H, W]"
    using Suc.IH[OF keys _ dj, of "chan a (int j)"] j by simp
  show ?case
    unfolding l
    using ih
    by (simp add: um cm sk u dc del: call1.simps call2.simps upt_Suc power_Suc)
qed


lemma RSUNet_body_shape:
  assumes b: "RSUNet_body a g = Inr net"
    and st: "a_init_stride a = Scalar 1" and act: "a_activation a = elu_shape"
    and pos: "0 < D" "0 < H" "0 < W"
    and dv: "2 ^ nat (a_depth a) dvd D" "2 ^ nat (a_depth a) dvd H" "2 ^ nat (a_depth a) dvd W"
    and n1: "n * (D div 2 ^ nat (a_depth a)) * (H div 2 ^ nat (a_depth a))
               * (W div 2 ^ nat (a_depth a)) \<noteq> 1"
  shows "RSUNet_forward (shape_engine s) net [n, 1, D, H, W] = Inr [n, a_aff a, D, H, W]"
proof -
  note f = RSUNet_body_Inr[OF b]
  let ?k = "nat (a_depth a)"
  let ?mods = "net_modules net"
  let ?skip = "map (\<lambda>t. [n, chan a (int t), D div 2 ^ t, H div 2 ^ t, W div 2 ^ t]) [0..<?k]"
  have dep: "net_depth net = a_depth a" by (rule f(3))
  have e0: "EmbeddingMod_forward (shape_engine s) (net_embed_in net) [n, 1, D, H, W]
      = Inr [n, chan_in a (int 0), D, H, W]"
    using EmbeddingMod_shape[OF f(4)[unfolded st act] pos] by (simp add: chan_in_def)
  have k1: "\<forall>d. 0 \<le> d \<and> d < 0 + ?k \<longrightarrow> Convmod (int d) \<in> fst ` set ?mods
              \<and> Maxpool (int d + 1) \<in> fst ` set ?mods"
    unfolding f(6) by auto
  have ct: "contracting (shape_engine s) ?mods (py_range (net_depth net))
      [n, chan_in a (int 0), D, H, W] []
      = Inr ([n, chan_in a (int ?k), D div 2 ^ ?k, H div 2 ^ ?k, W div 2 ^ ?k], ?skip)"
    using contracting_shape[OF f(5) act k1 dv pos, of s n "[]"]
    by (simp add: py_range_def dep)
  have ck: "chan_in a (int ?k) = chan_in a (a_depth a)"
    by (cases "0 \<le> a_depth a") (simp_all add: chan_in_def)
  obtain cm where cm: "getattr ?mods (Convmod (net_depth net)) = Inr (ConvModule cm)"
    and ci: "ConvMod_init (chan_in a (a_depth a)) (chan a (a_depth a)) (Tuple [3, 3, 3])
             elu_shape (a_residual a) (a_use_bn a) (a_momentum a) (a_track a) g = Inr cm"
    using getattr_Convmod[OF f(5), of "a_depth a"] act by (auto simp: f(6) dep)
  note pk = div_pow_pos[OF dv(1) pos(1)] div_pow_pos[OF dv(2) pos(2)]
    div_pow_pos[OF dv(3) pos(3)]
  have br: "call1 (shape_engine s) (ConvModule cm)
      [n, chan_in a (int ?k), D div 2 ^ ?k, H div 2 ^ ?k, W div 2 ^ ?k]
      = Inr [n, chan a (a_depth a), D div 2 ^ ?k, H div 2 ^ ?k, W div 2 ^ ?k]"
    unfolding ck using ConvMod_shape[OF ci pk n1] by simp
  have k2: "\<forall>d<?k. UpsampleN (int d) \<in> fst ` set ?mods \<and> Dconvmod (int d) \<in> fst ` set ?mods"
    unfolding f(6) by auto
  have sk: "\<forall>t<length ?skip. ?skip ! t
      = [n, chan a (int t), D div 2 ^ t, H div 2 ^ t, W div 2 ^ t]"
    by simp
  have ck2: "0 < ?k \<longrightarrow> chan a (a_depth a) = chan a (int ?k)" by simp
  have ex: "expanding (shape_engine s) ?mods (rev (py_range (net_depth net)))
      [n, chan a (a_depth a), D div 2 ^ ?k, H div 2 ^ ?k, W div 2 ^ ?k] ?skip
      = Inr [n, if ?k = 0 then chan a (a_depth a) else chan a 0, D, H, W]"
    using expanding_shape[OF f(5) act pos sk k2 _ dv ck2, of s]
    by (simp add: py_range_def dep)
  from f(9) st obtain e where e: "net_embed_out net = Plain e"
    and ei: "EmbeddingMod_init (if ?k = 0 then chan a (a_depth a) else chan a 0) embed_nout
                  embed_ks elu_shape (Scalar 1) g = Inr e"
    using act by auto
  have eo: "embedding_forward (shape_engine s) (net_embed_out net)
      [n, if ?k = 0 then chan a (a_depth a) else chan a 0, D, H, W]
      = Inr [n, embed_nout, D, H, W]"
    unfolding e using EmbeddingMod_shape[OF ei pos] by simp
  have ou: "OutputMod_forward (shape_engine s) (net_output net) [n, embed_nout, D, H, W]
      = Inr [n, a_aff a, D, H, W]"
    by (rule OutputMod_shape[OF f(10) pos])
  show ?thesis
    by (simp only: RSUNet_forward_def e0 ct cm br ex eo ou bind.simps prod.case)
qed

text \<open>
  C1 (as the code has it): take a valid configuration (positive widths in the schedule,
  a positive number of output channels) with \<^verbatim>\<open>init_stride=1\<close>, the integer, and an
  elementwise activation. The network constructed from it maps an input of shape
  \<open>(N, 1, D, H, W)\<close>, \<open>N\<close> positive, to an output of shape \<open>(N, out_channels, D, H, W)\<close> when
  each of \<open>D\<close>, \<open>H\<close>, \<open>W\<close> is a positive multiple of \<open>2 ^ depth\<close> and the tensor at the bridge
  has more than one value per channel.
\<close>

theorem unit_stride_preserves_shape:
  assumes constructed: "fst (RSUNet_init a g) = Inr net"
    and valid: "0 < a_aff a" "\<forall>c\<in>set (a_nfeatures a). 0 < c"
    and config: "a_init_stride a = Scalar 1" "a_activation a = elu_shape"
    and dims: "0 < n" "0 < D" "0 < H" "0 < W"
    and multiples: "2 ^ nat (a_depth a) dvd D" "2 ^ nat (a_depth a) dvd H"
      "2 ^ nat (a_depth a) dvd W"
    and bridge: "n * (D div 2 ^ nat (a_depth a)) * (H div 2 ^ nat (a_depth a))
               * (W div 2 ^ nat (a_depth a)) \<noteq> 1"
  shows "RSUNet_forward (shape_engine strict) net [n, 1, D, H, W] = Inr [n, a_aff a, D, H, W]"
proof -
  from constructed have "RSUNet_body a (g\<lparr>MODE := a_mode a\<rparr>) = Inr net"
    by (simp add: RSUNet_init_def Let_def)
  from RSUNet_body_shape[OF this config dims(2-4) multiples bridge] show ?thesis .
qed

theorem unit_stride_preserves_shape_witness:
  "\<exists>net. fst (RSUNet_init unit_stride globals0) = Inr net
     \<and> RSUNet_forward (shape_engine True) net [1, 1, 16, 64, 64] = Inr [1, 3, 16, 64, 64]"
proof -
  obtain net where net: "fst (RSUNet_init unit_stride globals0) = Inr net"
    using unit_stride_constructs by blast
  have "RSUNet_forward (shape_engine True) net [1, 1, 16, 64, 64]
      = Inr [1, a_aff unit_stride, 16, 64, 64]"
    by (rule unit_stride_preserves_shape[OF net])
      (simp_all add: unit_stride_def scenario_def)
  with net show ?thesis by (auto simp: unit_stride_def scenario_def)
qed

lemma unit_stride_odd_input:
  "fst (RSUNet_init unit_stride globals0) = Inr net \<Longrightarrow>
   RSUNet_forward (shape_engine True) net [1, 1, 16, 63, 63] = Inl (Engine RuntimeError)"
  by (clarsimp simp add: unit_stride_def scenario_def init_defs forward_defs shape_defs
      Let_def cong: bind_weak_cong)

lemma unit_stride_tiny_input:
  "fst (RSUNet_init unit_stride globals0) = Inr net \<Longrightarrow>
   RSUNet_forward (shape_engine True) net [1, 1, 4, 4, 4] = Inl (Engine ValueError)"
  by (clarsimp simp add: unit_stride_def scenario_def init_defs forward_defs shape_defs
      Let_def cong: bind_weak_cong)

lemma scenario_forward:
  "fst (RSUNet_init scenario globals0) = Inr net \<Longrightarrow>
   RSUNet_forward (shape_engine True) net [1, 1, 16, 64, 64] = Inl (Engine RuntimeError)
   \<and> RSUNet_forward (shape_engine False) net [1, 1, 16, 64, 64] = Inr [1, 3, 16, 65, 65]"
  by (clarsimp simp add: scenario_def init_defs forward_defs shape_defs
      Let_def cong: bind_weak_cong)

text \<open>
  C1 (as stated) fails in three ways. With \<^verbatim>\<open>init_stride=1\<close> and depth 2, an input of
  shape \<open>(1, 1, 16, 63, 63)\<close> is halved to 31 and to 15, upsampled to 30, and the addition
  of the skip tensor of width 31 fails; an input of shape \<open>(1, 1, 4, 4, 4)\<close> reaches the
  bridge with one value per channel, which batch normalisation refuses. In the
  specification's own scenario, \<^verbatim>\<open>init_stride=(1,1,1)\<close>, the output embedding is the
  transposed convolution with output padding \<open>(0, 1, 1)\<close>: the tensor library refuses it,
  or, where it does not check, the output has shape \<open>(1, 3, 16, 65, 65)\<close>.
\<close>

theorem same_shape_counterexample:
  "(\<exists>net. fst (RSUNet_init unit_stride globals0) = Inr net
      \<and> RSUNet_forward (shape_engine True) net [1, 1, 16, 63, 63]
          = Inl (Engine RuntimeError)
      \<and> RSUNet_forward (shape_engine True) net [1, 1, 4, 4, 4] = Inl (Engine ValueError))
   \<and> (\<exists>net. fst (RSUNet_init scenario globals0) = Inr net
      \<and> RSUNet_forward (shape_engine True) net [1, 1, 16, 64, 64]
          = Inl (Engine RuntimeError)
      \<and> RSUNet_forward (shape_engine False) net [1, 1, 16, 64, 64]
          = Inr [1, 3, 16, 65, 65])"
  using unit_stride_constructs unit_stride_odd_input unit_stride_tiny_input
    scenario_constructs scenario_forward
  by blast

subsection \<open>When the constructor succeeds\<close>

lemma UpsampleMod_init_known:
  "mode \<in> set [''bilinear'', ''nearest'', ''transpose''] \<Longrightarrow>
   \<exists>um. UpsampleMod_init cin cout up mode act use_bn mom tr g = Inr um"
  by (auto simp: UpsampleMod_init_def Conv_init_no_bias ConvT_init_def Let_def)

lemma expanding_init_in_table:
  assumes "a_use_bn a" "a_upsample a \<in> set [''bilinear'', ''nearest'', ''transpose'']"
  shows "j \<le> 5 \<Longrightarrow> j \<le> length (a_nfeatures a)
    \<Longrightarrow> \<exists>r. expanding_init a g (rev (map int [0..<j])) c mods = Inr r"
proof (induction j arbitrary: c mods)
  case 0
  then show ?case by simp
next
  case (Suc j)
  have l: "rev (map int [0..<Suc j]) = int j # rev (map int [0..<j])" by simp
  have fs: "py_index (a_nfeatures a) (int j) = Inr (a_nfeatures a ! j)"
    using Suc.prems(2) by (simp add: py_index_def)
  obtain um where um: "UpsampleMod_init c (a_nfeatures a ! j) (Scalar 2) (a_upsample a)
      (a_activation a) (a_use_bn a) (a_momentum a) (a_track a) g = Inr um"
    using UpsampleMod_init_known[OF assms(2)] by blast
  obtain cm where cm: "ConvMod_init (a_nfeatures a ! j) (a_nfeatures a ! j) (Tuple [3, 3, 3])
      (a_activation a) (a_residual a) (a_use_bn a) (a_momentum a) (a_track a) g = Inr cm"
    using ConvMod_init_use_bn assms(1) by metis
  from Suc.IH Suc.prems show ?case
    unfolding l expanding_init_step by (simp add: fs um cm)
qed

lemma RSUNet_body_succeeds:
  assumes "0 \<le> a_depth a" "a_depth a < int (length (a_nfeatures a))" "a_depth a < 5"
    and "a_use_bn a"
    and "a_depth a = 0 \<or> a_upsample a \<in> set [''bilinear'', ''nearest'', ''transpose'']"
  shows "\<exists>net. RSUNet_body a g = Inr net"
proof -
  let ?k = "nat (a_depth a)"
  have k: "?k \<le> 5" "?k \<le> length (a_nfeatures a)" "?k < 5" "?k < length (a_nfeatures a)"
    using assms(1-3) by simp_all
  obtain e where e: "EmbeddingMod_init 1 embed_nin embed_ks (a_activation a)
      (a_init_stride a) g = Inr e"
    using EmbeddingMod_init_embed_ks by blast
  obtain c1 m1 where ct: "contracting_init a g (map int [0..<?k]) embed_nin [] = Inr (c1, m1)"
    using contracting_init_in_table[OF assms(4) k(1,2), of g 0 embed_nin "[]"] by auto
  have fs: "py_index (a_nfeatures a) (a_depth a) = Inr (a_nfeatures a ! ?k)"
    using assms(1,2) by (simp add: py_index_def)
  have ks: "py_index sizes (a_depth a) = Inr (Tuple [3, 3, 3])"
    using assms(1,3) by (simp add: py_index_sizes)
  obtain m2 where br: "add_conv_mod a g (a_depth a) c1 (a_nfeatures a ! ?k) (Tuple [3, 3, 3]) m1
      = Inr m2"
    using ConvMod_init_use_bn assms(4) unfolding add_conv_mod_Inr by metis
  obtain c3 m3 where ex: "expanding_init a g (rev (map int [0..<?k])) (a_nfeatures a ! ?k) m2
      = Inr (c3, m3)"
  proof (cases "a_depth a = 0")
    case True
    then show ?thesis using that by simp
  next
    case False
    with assms(5) have "a_upsample a \<in> set [''bilinear'', ''nearest'', ''transpose'']"
      by simp
    from expanding_init_in_table[OF assms(4) this k(1,2), of g "a_nfeatures a ! ?k" m2]
    show ?thesis using that by auto
  qed
  have "\<exists>eo. (if a_init_stride a = Scalar 1 then
             bind (EmbeddingMod_init c3 embed_nout embed_ks (a_activation a)
                     (Scalar 1) g) (\<lambda>e. Inr (Plain e))
           else
             bind (EmbeddingModUP_init c3 embed_nout embed_ks (a_activation a)
                     (a_init_stride a)) (\<lambda>e. Inr (Upsampling e))) = Inr eo"
    by (simp add: EmbeddingMod_init_def EmbeddingModUP_init_def embed_ks_def pad_size_def
        triple_Tuple Conv_init_no_bias ConvT_init_def Let_def)
  then obtain eo where eo: "(if a_init_stride a = Scalar 1 then
             bind (EmbeddingMod_init c3 embed_nout embed_ks (a_activation a)
                     (Scalar 1) g) (\<lambda>e. Inr (Plain e))
           else
             bind (EmbeddingModUP_init c3 embed_nout embed_ks (a_activation a)
                     (a_init_stride a)) (\<lambda>e. Inr (Upsampling e))) = Inr eo"
    by blast
  have "\<exists>om. OutputMod_init embed_nout (a_aff a) (Scalar 1) g = Inr om"
    by (simp add: OutputMod_init_def pad_size_def triple_Scalar Conv_init_no_bias)
  then obtain om where om: "OutputMod_init embed_nout (a_aff a) (Scalar 1) g = Inr om"
    by blast
  show ?thesis
    using assms(2) e ct fs ks br ex eo om
    by (simp add: RSUNet_body_def py_range_def)
qed

lemma RSUNet_body_depth_assertion:
  "\<not> a_depth a < int (length (a_nfeatures a)) \<Longrightarrow> RSUNet_body a g = Inl AssertionError"
  by (simp add: RSUNet_body_def)

text \<open>
  Within the table of kernel sizes the constructor does what the schedule asks: for a
  depth from 0 below the length of the schedule, and below 5, it returns a network with
  that many pooling and upsampling stages; a depth that is not below the length of the
  schedule fails the assertion.
\<close>

lemma RSUNet_init_succeeds:
  assumes "0 \<le> a_depth a" "a_depth a < int (length (a_nfeatures a))" "a_depth a < 5"
    and "a_use_bn a"
    and "a_depth a = 0 \<or> a_upsample a \<in> set [''bilinear'', ''nearest'', ''transpose'']"
  shows "\<exists>net. fst (RSUNet_init a g) = Inr net
     \<and> pooling_stages (net_modules net) = nat (a_depth a)
     \<and> upsample_stages (net_modules net) = nat (a_depth a)"
proof -
  obtain net where net: "RSUNet_body a (g\<lparr>MODE := a_mode a\<rparr>) = Inr net"
    using RSUNet_body_succeeds[OF assms] by blast
  from RSUNet_body_Inr(7,8)[OF net] net show ?thesis
    by (simp add: RSUNet_init_def Let_def)
qed

lemma RSUNet_init_depth_assertion:
  "\<not> a_depth a < int (length (a_nfeatures a)) \<Longrightarrow> fst (RSUNet_init a g) = Inl AssertionError"
  by (simp add: RSUNet_init_def Let_def RSUNet_body_depth_assertion)

text \<open>
  C3: a schedule of six widths with depth 5 passes the constructor's own check
  \<^verbatim>\<open>depth < len(nfeatures)\<close>, and the constructor raises \<^verbatim>\<open>IndexError\<close> at \<^verbatim>\<open>sizes[5]\<close>
  where the claim has it succeed. The other half of the claim holds: with the scenario's
  schedule of three widths, depth 3 fails the assertion.
\<close>

theorem long_schedule_IndexError:
  "a_depth long_schedule < int (length (a_nfeatures long_schedule))
   \<and> fst (RSUNet_init long_schedule globals0) = Inl IndexError
   \<and> fst (RSUNet_init (scenario\<lparr>a_depth := 3\<rparr>) globals0) = Inl AssertionError"
  using long_schedule_eval RSUNet_init_depth_assertion[of "scenario\<lparr>a_depth := 3\<rparr>" globals0]
  by (auto simp: long_schedule_def scenario_def split: sum.splits)

subsection \<open>The backend of a network\<close>

lemma Conv_init_backend:
  "Conv_init i oc ks st pad bias g = Inr c \<Longrightarrow> Conv_backend c = mode_backend (MODE g)"
  by (cases bias)
    (auto simp: Conv_init_bias Conv_init_no_bias mode_backend_def new_layer_def
      kaiming_normal_weight_def)

lemma ConvMod_init_backends:
  assumes "ConvMod_init cin cout ks act res use_bn mom tr g = Inr cm"
  shows "set (ConvMod_backends cm) = {mode_backend (MODE g)}"
proof -
  from assms obtain pad c1 c2 c3 where
    "Conv_init cin cout (triple ks) (Tuple [1, 1, 1]) pad (\<not> use_bn) g = Inr c1"
    "Conv_init cout cout (triple ks) (Tuple [1, 1, 1]) pad (\<not> use_bn) g = Inr c2"
    "Conv_init cout cout (triple ks) (Tuple [1, 1, 1]) pad (\<not> use_bn) g = Inr c3"
    "cm_conv1 cm = c1" "cm_conv2 cm = c2" "cm_conv3 cm = c3"
    by (auto simp: ConvMod_init_def Let_def bind_eq_Inr)
  then show ?thesis
    by (auto simp: ConvMod_backends_def dest: Conv_init_backend)
qed

lemma UpsampleMod_init_backends:
  assumes "UpsampleMod_init cin cout up mode act use_bn mom tr g = Inr um"
  shows "set (UpsampleMod_backends um) \<subseteq> {mode_backend (MODE g)}"
  using assms
  by (auto simp: UpsampleMod_init_def Let_def bind_eq_Inr UpsampleMod_backends_def
      split: if_splits dest: Conv_init_backend)

lemma set_add_module: "set (add_module k m mods) \<subseteq> insert (k, m) (set mods)"
  unfolding add_module_def by (induction mods) auto

lemma backends_add_module:
  assumes "\<forall>p\<in>set mods. set (module_backends (snd p)) \<subseteq> {B}"
    and "set (module_backends m) \<subseteq> {B}"
  shows "\<forall>p\<in>set (add_module k m mods). set (module_backends (snd p)) \<subseteq> {B}"
  using assms set_add_module[of k m mods] by fastforce

lemma contracting_init_backends:
  "contracting_init a g ds c mods = Inr (c', mods') \<Longrightarrow>
   \<forall>p\<in>set mods. set (module_backends (snd p)) \<subseteq> {mode_backend (MODE g)} \<Longrightarrow>
   \<forall>p\<in>set mods'. set (module_backends (snd p)) \<subseteq> {mode_backend (MODE g)}"
proof (induction ds arbitrary: c mods)
  case Nil
  then show ?case by simp
next
  case (Cons d ds)
  from Cons.prems(1) obtain fs cm where
    cm: "ConvMod_init c fs (Tuple [3, 3, 3]) (a_activation a) (a_residual a) (a_use_bn a)
        (a_momentum a) (a_track a) g = Inr cm" and
    rest: "contracting_init a g ds fs
        (add_max_pool (d + 1) fs (Scalar 2) (add_module (Convmod d) (ConvModule cm) mods))
        = Inr (c', mods')"
    unfolding contracting_init_step by blast
  have "\<forall>p\<in>set (add_max_pool (d + 1) fs (Scalar 2)
      (add_module (Convmod d) (ConvModule cm) mods)).
      set (module_backends (snd p)) \<subseteq> {mode_backend (MODE g)}"
    unfolding add_max_pool_def
    by (intro backends_add_module Cons.prems(2)) (simp_all add: ConvMod_init_backends[OF cm])
  from Cons.IH[OF rest this] show ?case .
qed

lemma expanding_init_backends:
  "expanding_init a g ds c mods = Inr (c', mods') \<Longrightarrow>
   \<forall>p\<in>set mods. set (module_backends (snd p)) \<subseteq> {mode_backend (MODE g)} \<Longrightarrow>
   \<forall>p\<in>set mods'. set (module_backends (snd p)) \<subseteq> {mode_backend (MODE g)}"
proof (induction ds arbitrary: c mods)
  case Nil
  then show ?case by simp
next
  case (Cons d ds)
  from Cons.prems(1) obtain fs um cm where
    um: "UpsampleMod_init c fs (Scalar 2) (a_upsample a) (a_activation a) (a_use_bn a)
        (a_momentum a) (a_track a) g = Inr um" and
    cm: "ConvMod_init fs fs (Tuple [3, 3, 3]) (a_activation a) (a_residual a) (a_use_bn a)
        (a_momentum a) (a_track a) g = Inr cm" and
    rest: "expanding_init a g ds fs
        (add_module (Dconvmod d) (ConvModule cm)
           (add_module (UpsampleN d) (UpsampleModule um) mods)) = Inr (c', mods')"
    unfolding expanding_init_step by blast
  have "\<forall>p\<in>set (add_module (Dconvmod d) (ConvModule cm)
           (add_module (UpsampleN d) (UpsampleModule um) mods)).
      set (module_backends (snd p)) \<subseteq> {mode_backend (MODE g)}"
    by (intro backends_add_module Cons.prems(2))
      (simp_all add: ConvMod_init_backends[OF cm] UpsampleMod_init_backends[OF um])
  from Cons.IH[OF rest this] show ?case .
qed

lemma RSUNet_body_backends:
  assumes "RSUNet_body a g = Inr net"
  shows "set (RSUNet_backends net) = {mode_backend (MODE g)}"
proof -
  let ?B = "mode_backend (MODE g)"
  from assms have d: "a_depth a < int (length (a_nfeatures a))"
    by (simp add: RSUNet_body_def split: if_splits)
  from assms d obtain embed_in c1 m1 fs ks m2 c3 m3 embed_out outp where
    ei: "EmbeddingMod_init 1 embed_nin embed_ks (a_activation a) (a_init_stride a) g
           = Inr embed_in" and
    ct: "contracting_init a g (py_range (a_depth a)) embed_nin [] = Inr (c1, m1)" and
    br: "add_conv_mod a g (a_depth a) c1 fs ks m1 = Inr m2" and
    ex: "expanding_init a g (rev (py_range (a_depth a))) fs m2 = Inr (c3, m3)" and
    eo: "(if a_init_stride a = Scalar 1 then
             bind (EmbeddingMod_init c3 embed_nout embed_ks (a_activation a)
                     (Scalar 1) g) (\<lambda>e. Inr (Plain e))
           else
             bind (EmbeddingModUP_init c3 embed_nout embed_ks (a_activation a)
                     (a_init_stride a)) (\<lambda>e. Inr (Upsampling e))) = Inr embed_out" and
    ou: "OutputMod_init embed_nout (a_aff a) (Scalar 1) g = Inr outp" and
    net: "net_embed_in net = embed_in" "net_modules net = m3"
      "net_embed_out net = embed_out" "net_output net = outp"
    by (auto simp: RSUNet_body_def bind_eq_Inr)
  have b0: "Conv_backend (em_conv embed_in) = ?B"
    using ei by (auto simp: EmbeddingMod_init_def bind_eq_Inr dest: Conv_init_backend)
  have b1: "\<forall>p\<in>set m1. set (module_backends (snd p)) \<subseteq> {?B}"
    using contracting_init_backends[OF ct] by simp
  from br obtain cm where
    cm: "ConvMod_init c1 fs ks (a_activation a) (a_residual a) (a_use_bn a)
            (a_momentum a) (a_track a) g = Inr cm" and
    m2: "m2 = add_module (Convmod (a_depth a)) (ConvModule cm) m1"
    by (auto simp: add_conv_mod_Inr)
  have b2: "\<forall>p\<in>set m2. set (module_backends (snd p)) \<subseteq> {?B}"
    unfolding m2 by (intro backends_add_module b1) (simp add: ConvMod_init_backends[OF cm])
  have b3: "\<forall>p\<in>set m3. set (module_backends (snd p)) \<subseteq> {?B}"
    by (rule expanding_init_backends[OF ex b2])
  have b4: "set (embedding_backends embed_out) \<subseteq> {?B}"
    using eo
    by (auto simp: EmbeddingMod_init_def bind_eq_Inr split: if_splits
        dest: Conv_init_backend)
  have b5: "OutputMod_backend outp = ?B"
    using ou by (auto simp: OutputMod_init_def bind_eq_Inr dest: Conv_init_backend)
  show ?thesis
    unfolding RSUNet_backends_def net using b0 b3 b4 b5 by auto
qed

lemma scenario_torch_constructs:
  "\<exists>net. fst (RSUNet_init (scenario\<lparr>a_mode := ''torch''\<rparr>) globals0) = Inr net"
  by (simp add: scenario_def init_defs Let_def cong: bind_weak_cong)

text \<open>
  C9 (as the code has it): the constructor leaves \<^verbatim>\<open>MODE\<close> at its \<^verbatim>\<open>mode\<close> argument,
  whether it returns or raises; a \<^verbatim>\<open>Conv\<close> takes the backend that \<^verbatim>\<open>MODE\<close> names when it is
  built, so one built directly after a network has the backend of that network's
  \<^verbatim>\<open>mode\<close>; and every \<^verbatim>\<open>Conv\<close> of a network has the backend of the network's own \<^verbatim>\<open>mode\<close>,
  whatever \<^verbatim>\<open>MODE\<close> was before. (The statement is about backends: the weights come from
  the library's generator, which is outside the model.)
\<close>

theorem MODE_sets_backend:
  "MODE (snd (RSUNet_init a g)) = a_mode a
   \<and> map_sum id Conv_backend (Conv_init i oc ks st pad False g) = Inr (mode_backend (MODE g))
   \<and> map_sum id Conv_backend (Conv_init i oc ks st pad False (snd (RSUNet_init a g)))
       = Inr (mode_backend (a_mode a))
   \<and> (fst (RSUNet_init a g) = Inr net
        \<longrightarrow> set (RSUNet_backends net) = {mode_backend (a_mode a)})"
proof -
  have m: "MODE (snd (RSUNet_init a g)) = a_mode a"
    by (simp add: RSUNet_init_def Let_def)
  have c: "map_sum id Conv_backend (Conv_init i oc ks st pad False g') = Inr (mode_backend (MODE g'))"
    for g'
    by (simp add: Conv_init_no_bias mode_backend_def new_layer_def kaiming_normal_weight_def)
  have n: "set (RSUNet_backends net) = {mode_backend (a_mode a)}"
    if "fst (RSUNet_init a g) = Inr net"
    using RSUNet_body_backends[of a "g\<lparr>MODE := a_mode a\<rparr>" net] that
    by (simp add: RSUNet_init_def Let_def)
  show ?thesis using m c[of g] c[of "snd (RSUNet_init a g)"] n by simp
qed

theorem MODE_sets_backend_witness:
  "\<exists>net. fst (RSUNet_init (scenario\<lparr>a_mode := ''torch''\<rparr>) globals0) = Inr net
     \<and> MODE globals0 = ''tvm''
     \<and> MODE (snd (RSUNet_init (scenario\<lparr>a_mode := ''torch''\<rparr>) globals0)) = ''torch''
     \<and> set (RSUNet_backends net) = {Torch}"
proof -
  obtain net where net: "fst (RSUNet_init (scenario\<lparr>a_mode := ''torch''\<rparr>) globals0) = Inr net"
    using scenario_torch_constructs by blast
  show ?thesis
    using MODE_sets_backend[of "scenario\<lparr>a_mode := ''torch''\<rparr>" globals0 1 1 "Scalar 1"
        "Scalar 1" "Scalar 0" net] net
    by (auto simp: scenario_def globals0_def mode_backend_def)
qed

text \<open>
  C9 (as stated) has the backend of one network changed by the construction of
  another. Whatever network \<open>b\<close> is constructed first, the backends of the blocks that
  the constructor then builds for \<open>a\<close> are the same: the constructor writes \<^verbatim>\<open>MODE\<close> before
  it builds its first block.
\<close>

theorem network_backend_counterexample:
  "\<not> (\<exists>(a :: (nat list) rsunet_args) (b :: (nat list) rsunet_args) g.
        map_sum id RSUNet_backends (fst (RSUNet_init a (snd (RSUNet_init b g))))
          \<noteq> map_sum id RSUNet_backends (fst (RSUNet_init a g)))"
  by (simp add: RSUNet_init_def Let_def globals_MODE_update)

subsection \<open>Configurations that the constructor does not check\<close>






lemma long_schedule_no_bn_eval:
  "(case fst (RSUNet_init (long_schedule\<lparr>a_use_bn := False, a_mode := ''torch''\<rparr>) globals0) of
      Inl e \<Rightarrow> e = AttributeError | Inr net \<Rightarrow> False)"
  by (simp add: long_schedule_def scenario_def init_defs Let_def cong: bind_weak_cong)

text \<open>
  C10 (as stated) has the index error for every schedule longer than 5 and every depth
  from 5 below its length. Without batch normalisation the constructor does not get as
  far as \<^verbatim>\<open>sizes[5]\<close>: the first \<^verbatim>\<open>ConvMod\<close> asks for a bias and raises \<^verbatim>\<open>AttributeError\<close>.
\<close>

theorem sizes_table_no_bn_counterexample:
  "5 \<le> a_depth (long_schedule\<lparr>a_use_bn := False, a_mode := ''torch''\<rparr>)
   \<and> a_depth (long_schedule\<lparr>a_use_bn := False, a_mode := ''torch''\<rparr>)
       < int (length (a_nfeatures (long_schedule\<lparr>a_use_bn := False, a_mode := ''torch''\<rparr>)))
   \<and> fst (RSUNet_init (long_schedule\<lparr>a_use_bn := False, a_mode := ''torch''\<rparr>) globals0)
       = Inl AttributeError"
  using long_schedule_no_bn_eval
  by (auto simp: long_schedule_def scenario_def split: sum.splits)

end
